theory Spec2Isabelle
  imports Main "HOL-Library.Sublist"
begin

section \<open>Python values and exceptions used by the recipe API\<close>

text \<open>
  The exceptions the code can raise. \<open>DoesNotExist\<close> and \<open>MultipleObjectsReturned\<close>
  are the two failures of the ORM's \<open>get\<close>, \<open>IntegrityError\<close> is the database's
  refusal of a row, and \<open>AttributeError\<close> is what Python raises for an attribute
  access on \<open>None\<close>.
\<close>

datatype py_error =
    TypeError
  | ValueError
  | AttributeError
  | DoesNotExist
  | MultipleObjectsReturned
  | IntegrityError
  | UnicodeDecodeError

subsection \<open>\<open>str.split(sep)\<close>\<close>

text \<open>
  \<open>str.split(sep)\<close> with an explicit separator cuts the string at the leftmost,
  non-overlapping occurrences of \<open>sep\<close>, scanning from the left, and keeps empty
  segments; it always returns at least one segment. An empty separator raises
  \<open>ValueError\<close>.
\<close>

function split_on :: "string \<Rightarrow> string \<Rightarrow> string list" where
  "split_on sep [] = [[]]"
| "split_on sep (c # cs) =
     (if sep \<noteq> [] \<and> prefix sep (c # cs)
      then [] # split_on sep (drop (length sep) (c # cs))
      else (case split_on sep cs of
              w # ws \<Rightarrow> (c # w) # ws
            | [] \<Rightarrow> [[c]]))"
  by pat_completeness auto
termination
  by (relation "measure (\<lambda>(sep, s). length s)") auto

definition py_split :: "string \<Rightarrow> string \<Rightarrow> py_error + string list" where
  "py_split s sep = (if sep = [] then Inl ValueError else Inr (split_on sep s))"

subsection \<open>\<open>functools.reduce\<close> without an initial value\<close>

text \<open>
  \<open>reduce(f, xs)\<close> raises \<open>TypeError\<close> on an empty sequence; otherwise the first
  element is the initial accumulator and \<open>f\<close> is applied from the left. An exception of
  \<open>f\<close> ends the fold.
\<close>

fun reduce_from :: "('a \<Rightarrow> 'a \<Rightarrow> py_error + 'a) \<Rightarrow> 'a \<Rightarrow> 'a list \<Rightarrow> py_error + 'a" where
  "reduce_from f acc [] = Inr acc"
| "reduce_from f acc (y # ys) =
     (case f acc y of Inl e \<Rightarrow> Inl e | Inr acc' \<Rightarrow> reduce_from f acc' ys)"

fun py_reduce :: "('a \<Rightarrow> 'a \<Rightarrow> py_error + 'a) \<Rightarrow> 'a list \<Rightarrow> py_error + 'a" where
  "py_reduce f [] = Inl TypeError"
| "py_reduce f (x # xs) = reduce_from f x xs"

subsection \<open>The parsed error of \<open>recipe_error\<close>\<close>

text \<open>
  The values \<open>error_dict\<close> can hold: a string, or a dictionary with exactly one key
  (the only dictionaries the code builds are \<open>{y: x}\<close> and \<open>{recipe_id: error}\<close>).
\<close>

datatype err_val = Str string | Dict string err_val

text \<open>\<open>lambda x, y: {y: x}\<close>: the key of a dictionary must be hashable, a string is, a
  dictionary is not.\<close>

definition wrap_key :: "err_val \<Rightarrow> err_val \<Rightarrow> py_error + err_val" where
  "wrap_key x y = (case y of Str k \<Rightarrow> Inr (Dict k x) | Dict _ _ \<Rightarrow> Inl TypeError)"

definition separator :: string where
  "separator = '': ''"

text \<open>
  Lines 120 to 125 of \<open>api/recipe.py\<close>:
  \<^verbatim>\<open>
  try:
      error_list = error.split(': ')
      error_dict = reduce(lambda x, y: {y:x}, error_list[::-1])
  except:
      error_dict = { recipe_id: error }
  \<close>
\<close>

definition parse_error :: "string \<Rightarrow> string \<Rightarrow> err_val" where
  "parse_error recipe_id error =
     (case (case py_split error separator of
              Inl e \<Rightarrow> Inl e
            | Inr error_list \<Rightarrow> py_reduce wrap_key (map Str (rev error_list))) of
        Inr error_dict \<Rightarrow> error_dict
      | Inl _ \<Rightarrow> Dict recipe_id (Str error))"

text \<open>The shape the spec gives for the parse: the segments right-folded into nested
  single-key mappings, the last segment being the innermost value.\<close>

fun nest :: "string list \<Rightarrow> err_val" where
  "nest [] = Str []"
| "nest [v] = Str v"
| "nest (k # ks) = Dict k (nest ks)"

text \<open>Flattening a nested mapping: the keys from the outside in, and the innermost value.\<close>

fun key_path :: "err_val \<Rightarrow> string list" where
  "key_path (Str v) = []"
| "key_path (Dict k d) = k # key_path d"

fun innermost :: "err_val \<Rightarrow> string" where
  "innermost (Str v) = v"
| "innermost (Dict k d) = innermost d"

text \<open>\<open>sep.join(xs)\<close>.\<close>

fun py_join :: "string \<Rightarrow> string list \<Rightarrow> string" where
  "py_join sep [] = []"
| "py_join sep [x] = x"
| "py_join sep (x # xs) = x @ sep @ py_join sep xs"

section \<open>The record store, the notifications and the background tasks\<close>

text \<open>
  Modelled from the spec: the \<open>Recipe\<close> and \<open>ErrorMessage\<close> entities of \<open>db/models.py\<close>,
  which is not among the sources. Section 3 of the spec gives a recipe a numeric id, the
  external \<open>recipe_id\<close> and the flag \<open>enabled\<close>, and an error message a numeric id,
  the \<open>recipe_id\<close> it refers to and the nullable handles \<open>slack_ts\<close> and
  \<open>slack_channel\<close>. Only these fields are read or written by \<open>api/recipe.py\<close>.
\<close>

record recipe_row =
  r_id :: int
  r_recipe_id :: string
  r_enabled :: bool

record error_row =
  e_id :: int
  e_recipe_id :: string
  e_slack_ts :: "string option"
  e_slack_channel :: "string option"

text \<open>
  Modelled from the spec: the notification dispatcher (\<open>api/slack\<close>: \<open>send_msg\<close>,
  \<open>build_msg\<close>, \<open>bot\<close>), which is not among the sources. A call sends one message,
  recorded here with the arguments the handler passes, and returns the chat platform's
  answer, of which the handlers read the keys \<open>ts\<close> and \<open>channel\<close> with
  \<open>results.get\<close>. The answer is the environment's: every handler takes it as the
  function \<open>slack\<close>.
\<close>

record slack_result =
  res_ts :: "string option"
  res_channel :: "string option"

datatype blocks = Missing_recipe_msg string string

datatype notification =
    Recipe_error_msg string int err_val
  | Deny_trust_msg error_row
  | Update_trust_success_msg error_row
  | Update_trust_error_msg string error_row
  | Trust_diff_msg string error_row
  | Ephemeral_message string blocks string string

text \<open>An argument of a background task: the handler passes strings and the integer id.\<close>

datatype task_arg = Arg_str string | Arg_int int

text \<open>
  What a handler can change: the two tables (rows in the order the database returns
  them), the tasks handed to \<open>background_tasks.add_task\<close> with \<open>recipe_runner.main\<close>,
  and the messages sent. No handler runs in a transaction, so a handler that raises
  leaves behind the writes it made before.
\<close>

record world =
  recipes :: "recipe_row list"
  error_messages :: "error_row list"
  background_tasks :: "task_arg list list"
  sent :: "notification list"

datatype response = Result string | Returned_none | Returned_slack slack_result

subsection \<open>The ORM calls\<close>

text \<open>\<open>Recipes.filter(recipe_id=...).first()\<close>: the first matching row, or \<open>None\<close>.\<close>

definition first_recipe :: "string \<Rightarrow> recipe_row list \<Rightarrow> recipe_row option" where
  "first_recipe recipe_id rows = find (\<lambda>r. r_recipe_id r = recipe_id) rows"

text \<open>\<open>Model.get(...)\<close>: exactly one matching row, \<open>DoesNotExist\<close> for none,
  \<open>MultipleObjectsReturned\<close> for more.\<close>

definition orm_get :: "('a \<Rightarrow> bool) \<Rightarrow> 'a list \<Rightarrow> py_error + 'a" where
  "orm_get P rows =
     (case filter P rows of
        [] \<Rightarrow> Inl DoesNotExist
      | [x] \<Rightarrow> Inr x
      | _ # _ # _ \<Rightarrow> Inl MultipleObjectsReturned)"

text \<open>\<open>ErrorMessages.create(recipe_id=...)\<close>: a new row with the next id of the table
  and empty handles.\<close>

definition next_id :: "error_row list \<Rightarrow> int" where
  "next_id rows = fold max (map e_id rows) 0 + 1"

definition create_error :: "string \<Rightarrow> error_row list \<Rightarrow> error_row \<times> error_row list" where
  "create_error recipe_id rows =
     (let error_message =
        \<lparr>e_id = next_id rows, e_recipe_id = recipe_id,
         e_slack_ts = None, e_slack_channel = None\<rparr>
      in (error_message, rows @ [error_message]))"

text \<open>
  \<open>ErrorMessages.update_or_create(updates, id=...)\<close>: the row with this id gets the two
  handles. With no such row the ORM would create one from the id and the handles alone;
  whether the table takes such a row is decided in \<open>db/models.py\<close>. Modelled from the
  spec, which gives every error message a \<open>recipe_id\<close> (section 3): the branch is
  the database's refusal. No handler reaches it: each passes the id of a row it has just
  created or read.
\<close>

definition update_or_create ::
    "string option \<Rightarrow> string option \<Rightarrow> int \<Rightarrow> error_row list \<Rightarrow> py_error + error_row list" where
  "update_or_create new_ts new_channel i rows =
     (case filter (\<lambda>e. e_id e = i) rows of
        [] \<Rightarrow> Inl IntegrityError
      | [_] \<Rightarrow>
          Inr (map (\<lambda>e. if e_id e = i
                         then e\<lparr>e_slack_ts := new_ts, e_slack_channel := new_channel\<rparr>
                         else e) rows)
      | _ # _ # _ \<Rightarrow> Inl MultipleObjectsReturned)"

text \<open>\<open>recipe_object.save()\<close>: the row with the object's primary key is overwritten.\<close>

definition save_recipe :: "recipe_row \<Rightarrow> recipe_row list \<Rightarrow> recipe_row list" where
  "save_recipe recipe_object rows =
     map (\<lambda>r. if r_id r = r_id recipe_object then recipe_object else r) rows"

section \<open>The handlers of \<open>api/recipe.py\<close>\<close>

text \<open>\<open>recipe_error\<close>, lines 114 to 141. \<open>recipe_object\<close> is \<open>None\<close> when no recipe
  matches, and the assignment to \<open>recipe_object.enabled\<close> then raises.\<close>

definition recipe_error ::
    "(notification \<Rightarrow> slack_result) \<Rightarrow> world \<Rightarrow> string \<Rightarrow> string \<Rightarrow> (py_error + response) \<times> world" where
  "recipe_error slack w recipe_id error =
     (let (error_message, rows) = create_error recipe_id (error_messages w);
          w1 = w\<lparr>error_messages := rows\<rparr>;
          error_dict = parse_error recipe_id error;
          msg = Recipe_error_msg recipe_id (e_id error_message) error_dict;
          results = slack msg;
          w2 = w1\<lparr>sent := sent w1 @ [msg]\<rparr>
      in case update_or_create (res_ts results) (res_channel results) (e_id error_message)
                (error_messages w2) of
           Inl e \<Rightarrow> (Inl e, w2)
         | Inr rows' \<Rightarrow>
             (let w3 = w2\<lparr>error_messages := rows'\<rparr>
              in case first_recipe recipe_id (recipes w3) of
                   None \<Rightarrow> (Inl AttributeError, w3)
                 | Some recipe_object \<Rightarrow>
                     (Inr (Result ''Success''),
                      w3\<lparr>recipes :=
                            save_recipe (recipe_object\<lparr>r_enabled := False\<rparr>) (recipes w3)\<rparr>)))"

text \<open>\<open>recipe_trust_update\<close>, lines 149 to 184. The branch without a recipe ends
  without a \<open>return\<close>.\<close>

definition trust_task :: "string \<Rightarrow> int \<Rightarrow> task_arg list" where
  "trust_task recipe_id i =
     [Arg_str ''--recipe-identifier'', Arg_str recipe_id,
      Arg_str ''--action'', Arg_str ''trust'',
      Arg_str ''--error_id'', Arg_int i]"

definition missing_text :: "string \<Rightarrow> string" where
  "missing_text recipe_id =
     ''Encountered error attempting to update trust for `'' @ recipe_id @ ''`''"

definition recipe_trust_update ::
    "(notification \<Rightarrow> slack_result) \<Rightarrow> world \<Rightarrow> int \<Rightarrow> string \<Rightarrow> string \<Rightarrow> (py_error + response) \<times> world" where
  "recipe_trust_update slack w i user_id chan =
     (case orm_get (\<lambda>e. e_id e = i) (error_messages w) of
        Inl e \<Rightarrow> (Inl e, w)
      | Inr error_object \<Rightarrow>
          (case first_recipe (e_recipe_id error_object) (recipes w) of
             Some recipe_object \<Rightarrow>
               (let w1 = w\<lparr>background_tasks :=
                             background_tasks w @ [trust_task (e_recipe_id error_object) i]\<rparr>
                in (Inr (Result ''Queued background task...''),
                    w1\<lparr>recipes :=
                          save_recipe (recipe_object\<lparr>r_enabled := True\<rparr>) (recipes w1)\<rparr>))
           | None \<Rightarrow>
               (let blocks = Missing_recipe_msg (e_recipe_id error_object) ''update trust for''
                in (Inr Returned_none,
                    w\<lparr>sent := sent w @
                          [Ephemeral_message user_id blocks chan
                             (missing_text (e_recipe_id error_object))]\<rparr>))))"

text \<open>\<open>recipe_trust_deny\<close>, lines 193 to 198.\<close>

definition recipe_trust_deny ::
    "(notification \<Rightarrow> slack_result) \<Rightarrow> world \<Rightarrow> int \<Rightarrow> (py_error + response) \<times> world" where
  "recipe_trust_deny slack w i =
     (case orm_get (\<lambda>e. e_id e = i) (error_messages w) of
        Inl e \<Rightarrow> (Inl e, w)
      | Inr error_object \<Rightarrow>
          (Inr Returned_none, w\<lparr>sent := sent w @ [Deny_trust_msg error_object]\<rparr>))"

text \<open>\<open>recipe_trust_update_success\<close>, lines 206 to 217: the row is looked up by
  \<open>error_id\<close>; \<open>recipe_id\<close> and \<open>msg\<close> are not used.\<close>

definition recipe_trust_update_success ::
    "(notification \<Rightarrow> slack_result) \<Rightarrow> world \<Rightarrow> string \<Rightarrow> string \<Rightarrow> int \<Rightarrow> (py_error + response) \<times> world" where
  "recipe_trust_update_success slack w recipe_id msg error_id =
     (case orm_get (\<lambda>e. e_id e = error_id) (error_messages w) of
        Inl e \<Rightarrow> (Inl e, w)
      | Inr error_object \<Rightarrow>
          (Inr (Returned_slack (slack (Update_trust_success_msg error_object))),
           w\<lparr>sent := sent w @ [Update_trust_success_msg error_object]\<rparr>))"

text \<open>\<open>recipe_trust_update_failed\<close>, lines 225 to 245: the row is looked up by
  \<open>recipe_id\<close>.\<close>

definition recipe_trust_update_failed ::
    "(notification \<Rightarrow> slack_result) \<Rightarrow> world \<Rightarrow> string \<Rightarrow> string \<Rightarrow> (py_error + response) \<times> world" where
  "recipe_trust_update_failed slack w recipe_id msg =
     (case orm_get (\<lambda>e. e_recipe_id e = recipe_id) (error_messages w) of
        Inl e \<Rightarrow> (Inl e, w)
      | Inr error_object \<Rightarrow>
          (let note = Update_trust_error_msg msg error_object;
               results = slack note;
               w1 = w\<lparr>sent := sent w @ [note]\<rparr>
           in case update_or_create (res_ts results) (res_channel results) (e_id error_object)
                     (error_messages w1) of
                Inl e \<Rightarrow> (Inl e, w1)
              | Inr rows' \<Rightarrow>
                  (let w2 = w1\<lparr>error_messages := rows'\<rparr>
                   in case first_recipe (e_recipe_id error_object) (recipes w2) of
                        None \<Rightarrow> (Inl AttributeError, w2)
                      | Some recipe_object \<Rightarrow>
                          (Inr (Result ''Success''),
                           w2\<lparr>recipes :=
                                 save_recipe (recipe_object\<lparr>r_enabled := False\<rparr>)
                                   (recipes w2)\<rparr>))))"

text \<open>\<open>reciepe_trust_verify_failed\<close>, lines 253 to 270. The request body is
  \<open>{recipe_id, msg}\<close>; its two entries are the arguments.\<close>

definition reciepe_trust_verify_failed ::
    "(notification \<Rightarrow> slack_result) \<Rightarrow> world \<Rightarrow> string \<Rightarrow> string \<Rightarrow> (py_error + response) \<times> world" where
  "reciepe_trust_verify_failed slack w recipe_id error_msg =
     (let (error_object, rows) = create_error recipe_id (error_messages w);
          w1 = w\<lparr>error_messages := rows\<rparr>;
          w2 = w1\<lparr>sent := sent w1 @ [Trust_diff_msg error_msg error_object]\<rparr>
      in case first_recipe (e_recipe_id error_object) (recipes w2) of
           None \<Rightarrow> (Inl AttributeError, w2)
         | Some recipe_object \<Rightarrow>
             (Inr (Result ''Success''),
              w2\<lparr>recipes :=
                    save_recipe (recipe_object\<lparr>r_enabled := False\<rparr>) (recipes w2)\<rparr>))"

section \<open>The trust workflow as a machine\<close>

text \<open>One event for each callback of section 6 of the spec, with the callback's
  parameters; \<open>handle\<close> calls the handler, and a run keeps the store a handler leaves
  behind, also when the handler raised.\<close>

datatype event =
    Report_error string string
  | Request_trust_update int string string
  | Deny_trust int
  | Update_succeeded string string int
  | Update_failed string string
  | Verify_failed string string

fun handle :: "(notification \<Rightarrow> slack_result) \<Rightarrow> world \<Rightarrow> event \<Rightarrow> (py_error + response) \<times> world" where
  "handle slack w (Report_error recipe_id error) = recipe_error slack w recipe_id error"
| "handle slack w (Request_trust_update i user_id chan) = recipe_trust_update slack w i user_id chan"
| "handle slack w (Deny_trust i) = recipe_trust_deny slack w i"
| "handle slack w (Update_succeeded recipe_id msg error_id) =
     recipe_trust_update_success slack w recipe_id msg error_id"
| "handle slack w (Update_failed recipe_id msg) = recipe_trust_update_failed slack w recipe_id msg"
| "handle slack w (Verify_failed recipe_id msg) = reciepe_trust_verify_failed slack w recipe_id msg"

fun run :: "(notification \<Rightarrow> slack_result) \<Rightarrow> world \<Rightarrow> event list \<Rightarrow> world" where
  "run slack w [] = w"
| "run slack w (ev # evs) = run slack (snd (handle slack w ev)) evs"

text \<open>What fetching a recipe by its \<open>recipe_id\<close> shows of \<open>enabled\<close>.\<close>

definition enabled_of :: "world \<Rightarrow> string \<Rightarrow> bool option" where
  "enabled_of w recipe_id = map_option r_enabled (first_recipe recipe_id (recipes w))"

text \<open>The ids are the primary keys of the two tables.\<close>

definition primary_keys :: "world \<Rightarrow> bool" where
  "primary_keys w \<longleftrightarrow> distinct (map r_id (recipes w)) \<and> distinct (map e_id (error_messages w))"

text \<open>
  The transitions that write \<open>enabled\<close>, by their guards on the store before the
  event: report-error and verify-failed write false when the recipe is there,
  update-failed writes false when exactly one error message has the \<open>recipe_id\<close> and
  the recipe is there, request-trust-update writes true when the error message and its
  recipe are there; deny and update-succeeded write nothing.
\<close>

definition enabled_write :: "world \<Rightarrow> event \<Rightarrow> (string \<times> bool) option" where
  "enabled_write w ev =
     (case ev of
        Report_error recipe_id _ \<Rightarrow>
          (if first_recipe recipe_id (recipes w) = None then None else Some (recipe_id, False))
      | Verify_failed recipe_id _ \<Rightarrow>
          (if first_recipe recipe_id (recipes w) = None then None else Some (recipe_id, False))
      | Update_failed recipe_id _ \<Rightarrow>
          (case orm_get (\<lambda>e. e_recipe_id e = recipe_id) (error_messages w) of
             Inl _ \<Rightarrow> None
           | Inr _ \<Rightarrow>
               (if first_recipe recipe_id (recipes w) = None then None
                else Some (recipe_id, False)))
      | Request_trust_update i _ _ \<Rightarrow>
          (case orm_get (\<lambda>e. e_id e = i) (error_messages w) of
             Inl _ \<Rightarrow> None
           | Inr error_object \<Rightarrow>
               (if first_recipe (e_recipe_id error_object) (recipes w) = None then None
                else Some (e_recipe_id error_object, True)))
      | Deny_trust _ \<Rightarrow> None
      | Update_succeeded _ _ _ \<Rightarrow> None)"

text \<open>The value the last such transition of a run wrote for a recipe, if there was
  one.\<close>

fun last_write :: "(notification \<Rightarrow> slack_result) \<Rightarrow> world \<Rightarrow> event list \<Rightarrow> string \<Rightarrow> bool option" where
  "last_write slack w [] recipe_id = None"
| "last_write slack w (ev # evs) recipe_id =
     (case last_write slack (snd (handle slack w ev)) evs recipe_id of
        Some b \<Rightarrow> Some b
      | None \<Rightarrow>
          (case enabled_write w ev of
             None \<Rightarrow> None
           | Some (written, b) \<Rightarrow> if written = recipe_id then Some b else None))"

text \<open>The store \<open>recipe_error\<close> leaves before it looks the recipe up: the new error
  message with the handles of the answer, and the message sent.\<close>

definition reported :: "(notification \<Rightarrow> slack_result) \<Rightarrow> world \<Rightarrow> string \<Rightarrow> string \<Rightarrow> world" where
  "reported slack w recipe_id error =
     (let msg = Recipe_error_msg recipe_id (next_id (error_messages w)) (parse_error recipe_id error)
      in w\<lparr>error_messages := error_messages w @
              [\<lparr>e_id = next_id (error_messages w), e_recipe_id = recipe_id,
                e_slack_ts = res_ts (slack msg), e_slack_channel = res_channel (slack msg)\<rparr>],
            sent := sent w @ [msg]\<rparr>)"

subsection \<open>A chat platform and two stores to run the handlers on\<close>

definition slack0 :: "notification \<Rightarrow> slack_result" where
  "slack0 msg = \<lparr>res_ts = Some ''1700000000.000100'', res_channel = Some ''C024BE91L''\<rparr>"

definition no_recipe :: world where
  "no_recipe = \<lparr>recipes = [], error_messages = [], background_tasks = [], sent = []\<rparr>"

definition one_recipe :: world where
  "one_recipe =
     \<lparr>recipes = [\<lparr>r_id = 1, r_recipe_id = ''R123'', r_enabled = True\<rparr>],
      error_messages = [], background_tasks = [], sent = []\<rparr>"


text \<open>The store after two errors were reported for the recipe and a trust update was
  requested for the second.\<close>

definition two_errors :: world where
  "two_errors =
     run slack0 one_recipe
       [Report_error ''R123'' ''Download: Timeout'',
        Report_error ''R123'' ''Trust: Changed'',
        Request_trust_update 2 ''U1'' ''D1'']"

section \<open>Python strings and values in \<open>utils.py\<close>\<close>

text \<open>
  A Python string is a list of characters. HOL's characters stand for the code points
  below 256, and the tables below (whitespace, word characters, printable characters)
  are Python's tables for these code points.
\<close>

definition backslash :: char where
  "backslash = CHR 0x5C"

definition single_quote :: char where
  "single_quote = CHR 0x27"

definition double_quote :: char where
  "double_quote = CHR 0x22"

definition newline :: char where
  "newline = CHR 0x0A"

definition code_point :: "char \<Rightarrow> nat" where
  "code_point c = of_char c"

text \<open>\<open>str.isspace\<close> of one character: tab to carriage return, the four separators
  28 to 31, the space, NEL and the no-break space.\<close>

definition py_isspace :: "char \<Rightarrow> bool" where
  "py_isspace c =
     (let n = code_point c
      in (9 \<le> n \<and> n \<le> 13) \<or> (28 \<le> n \<and> n \<le> 32) \<or> n = 133 \<or> n = 160)"

text \<open>\<open>str.strip()\<close> without argument removes the whitespace at both ends.\<close>

definition strip :: "string \<Rightarrow> string" where
  "strip s = rev (dropWhile py_isspace (rev (dropWhile py_isspace s)))"

text \<open>The values a caller or the configuration can hand over: \<open>None\<close>, a string, a
  list.\<close>

datatype py_value = Py_none | Py_str string | Py_list "py_value list"

text \<open>Truth value of \<open>if x:\<close>.\<close>

fun truthy :: "py_value \<Rightarrow> bool" where
  "truthy Py_none = False"
| "truthy (Py_str s) = (s \<noteq> [])"
| "truthy (Py_list xs) = (xs \<noteq> [])"

text \<open>
  \<open>repr\<close> of a string: in single quotes, or in double quotes when the string has a
  single quote and no double quote; the quote and the backslash are escaped with a
  backslash, tab, newline and carriage return are written \<open>\t\<close>, \<open>\n\<close>, \<open>\r\<close>, and
  every other character that is not printable is written \<open>\xNN\<close>.
\<close>

definition printable :: "char \<Rightarrow> bool" where
  "printable c =
     (let n = code_point c
      in (32 \<le> n \<and> n \<le> 126) \<or> (161 \<le> n \<and> n \<le> 255 \<and> n \<noteq> 173))"

definition hex_digit :: "nat \<Rightarrow> char" where
  "hex_digit n = ''0123456789abcdef'' ! (n mod 16)"

definition repr_char :: "char \<Rightarrow> char \<Rightarrow> string" where
  "repr_char quote c =
     (let n = code_point c
      in if c = quote \<or> c = backslash then [backslash, c]
         else if n = 9 then [backslash, CHR ''t'']
         else if n = 10 then [backslash, CHR ''n'']
         else if n = 13 then [backslash, CHR ''r'']
         else if printable c then [c]
         else [backslash, CHR ''x'', hex_digit (n div 16), hex_digit n])"

definition repr_str :: "string \<Rightarrow> string" where
  "repr_str s =
     (let quote = (if single_quote \<in> set s \<and> double_quote \<notin> set s
                   then double_quote else single_quote)
      in quote # concat (map (repr_char quote) s) @ [quote])"

fun py_repr :: "py_value \<Rightarrow> string" where
  "py_repr Py_none = ''None''"
| "py_repr (Py_str s) = repr_str s"
| "py_repr (Py_list xs) = ''['' @ py_join '', '' (map py_repr xs) @ '']''"

text \<open>\<open>str(x)\<close>, which is what \<open>'{}'.format(x)\<close> inserts: a string as it is, anything
  else as its \<open>repr\<close>.\<close>

fun py_str :: "py_value \<Rightarrow> string" where
  "py_str (Py_str s) = s"
| "py_str v = py_repr v"

section \<open>The command runner\<close>

text \<open>
  What the shell and the process do is the environment's: \<open>shell command input\<close> is
  the finished process for a command line and the text written to its standard input
  (\<open>None\<close> when \<open>communicate\<close> is called without input): its two output streams, as
  bytes, and its exit code. \<open>decode\<close> is \<open>bytes.decode()\<close>, which yields the text or
  raises \<open>UnicodeDecodeError\<close>.
\<close>

record completed =
  out_bytes :: string
  err_bytes :: "string option"
  returncode :: int

record run_result =
  stdout :: string
  stderr :: "string option"
  status :: int
  success :: bool

text \<open>What is written to the standard input of the process: nothing when \<open>input\<close> is
  not true, and \<open>bytes(input, "utf-8")\<close> otherwise, which raises \<open>TypeError\<close> for an
  input that is not a string.\<close>

definition piped :: "py_value \<Rightarrow> py_error + string option" where
  "piped input =
     (if truthy input
      then (case input of Py_str text \<Rightarrow> Inr (Some text) | _ \<Rightarrow> Inl TypeError)
      else Inr None)"

text \<open>\<open>run_process_async\<close>, lines 46 to 80 of \<open>utils.py\<close>.\<close>

definition run_process_async ::
    "(string \<Rightarrow> string option \<Rightarrow> completed) \<Rightarrow> (string \<Rightarrow> py_error + string) \<Rightarrow>
     py_value \<Rightarrow> py_value \<Rightarrow> py_error + run_result" where
  "run_process_async shell decode command input =
     (case command of
        Py_str cmd \<Rightarrow>
          (case piped input of
             Inl e \<Rightarrow> Inl e
           | Inr written \<Rightarrow>
               (let process = shell cmd written
                in case decode (out_bytes process) of
                     Inl e \<Rightarrow> Inl e
                   | Inr out \<Rightarrow>
                       (case (case err_bytes process of
                                None \<Rightarrow> Inr None
                              | Some b \<Rightarrow>
                                  (case decode b of
                                     Inl e \<Rightarrow> Inl e
                                   | Inr err \<Rightarrow> Inr (Some (strip err)))) of
                          Inl e \<Rightarrow> Inl e
                        | Inr err \<Rightarrow>
                            Inr \<lparr>stdout = strip out,
                                 stderr = err,
                                 status = returncode process,
                                 success = (if returncode process = 0 then True else False)\<rparr>)))
      | _ \<Rightarrow> Inl TypeError)"

text \<open>\<open>isinstance(command, str)\<close>.\<close>

fun is_str :: "py_value \<Rightarrow> bool" where
  "is_str (Py_str s) = True"
| "is_str v = False"

text \<open>A process that prints a greeting with blank space around it and exits with 0, one
  that prints a complaint to its error stream and exits with 1, and the decoding of
  bytes that are ASCII text.\<close>

definition shell0 :: "string \<Rightarrow> string option \<Rightarrow> completed" where
  "shell0 cmd input =
     (if cmd = ''true''
      then \<lparr>out_bytes = ''  hello '' @ [newline], err_bytes = Some [], returncode = 0\<rparr>
      else \<lparr>out_bytes = [], err_bytes = Some (''no such file'' @ [newline]), returncode = 1\<rparr>)"

definition decode0 :: "string \<Rightarrow> py_error + string" where
  "decode0 b = (if list_all (\<lambda>c. code_point c < 128) b then Inr b else Inl UnicodeDecodeError)"

section \<open>Regular expressions: the part of \<open>re\<close> the redaction needs\<close>

text \<open>
  \<open>re.sub(pattern, repl, string)\<close> compiles the pattern and replaces its leftmost
  non-overlapping matches. The model covers patterns made of literal characters, the
  dot, the classes \<open>\d \D \s \S \w \W\<close>, escaped punctuation, character sets
  \<open>[...]\<close>, the greedy quantifiers \<open>* + ?\<close> on one character, and alternation with
  \<open>|\<close>. Groups, anchors, braces, lazy and possessive quantifiers and the other
  escapes of letters and digits are left out: for a pattern that uses them the model
  says nothing (\<open>Outside\<close>). \<open>Re_error\<close> is the exception \<open>re.error\<close>.
\<close>

datatype 'a outcome = Done 'a | Re_error | Outside

datatype token = Ch char | Esc char

datatype category = Digit | Space | Word

datatype set_item = Item_char char | Item_range char char | Item_category bool category

datatype atom = Lit char | Any_char | Category bool category | Char_set bool "set_item list"

datatype quantifier = Once | Star | Plus | Opt

type_synonym branch = "(atom \<times> quantifier) list"

type_synonym regex = "branch list"

text \<open>The pattern is read character by character; a backslash takes the next character
  with it, and a backslash at the end is an error.\<close>

fun tokens :: "string \<Rightarrow> token list outcome" where
  "tokens [] = Done []"
| "tokens (c # cs) =
     (if c = backslash
      then (case cs of
              [] \<Rightarrow> Re_error
            | e # rest \<Rightarrow>
                (case tokens rest of Done ts \<Rightarrow> Done (Esc e # ts) | bad \<Rightarrow> bad))
      else (case tokens cs of Done ts \<Rightarrow> Done (Ch c # ts) | bad \<Rightarrow> bad))"

definition ascii_alnum :: "char \<Rightarrow> bool" where
  "ascii_alnum c =
     (let n = code_point c
      in (48 \<le> n \<and> n \<le> 57) \<or> (65 \<le> n \<and> n \<le> 90) \<or> (97 \<le> n \<and> n \<le> 122))"

text \<open>An escape is a class for \<open>d D s S w W\<close> (the capital negates), the character
  itself when that is not an ASCII letter or digit, and outside the model otherwise.\<close>

definition escape :: "char \<Rightarrow> set_item outcome" where
  "escape e =
     (if e = CHR ''d'' then Done (Item_category False Digit)
      else if e = CHR ''D'' then Done (Item_category True Digit)
      else if e = CHR ''s'' then Done (Item_category False Space)
      else if e = CHR ''S'' then Done (Item_category True Space)
      else if e = CHR ''w'' then Done (Item_category False Word)
      else if e = CHR ''W'' then Done (Item_category True Word)
      else if ascii_alnum e then Outside
      else Done (Item_char e))"

fun item_of :: "token \<Rightarrow> set_item outcome" where
  "item_of (Ch c) = Done (Item_char c)"
| "item_of (Esc e) = escape e"

text \<open>
  The inside of a character set, after \<open>[\<close> and an optional \<open>^\<close>, up to the closing
  bracket: a \<open>]\<close> closes the set unless it is its first item; \<open>x-y\<close> is a range when
  both ends are single characters in order, and an error otherwise; a \<open>-\<close> before the
  closing bracket is a literal; a pattern that ends inside the set is an error.
\<close>

fun parse_set :: "set_item list \<Rightarrow> token list \<Rightarrow> (set_item list \<times> token list) outcome" where
  "parse_set acc [] = Re_error"
| "parse_set acc (t # ts) =
     (if t = Ch CHR '']'' \<and> acc \<noteq> [] then Done (acc, ts)
      else (case item_of t of
              Re_error \<Rightarrow> Re_error
            | Outside \<Rightarrow> Outside
            | Done code1 \<Rightarrow>
                (case ts of
                   [] \<Rightarrow> Re_error
                 | d # ts1 \<Rightarrow>
                     (if d \<noteq> Ch CHR ''-'' then parse_set (acc @ [code1]) (d # ts1)
                      else (case ts1 of
                              [] \<Rightarrow> Re_error
                            | that # ts2 \<Rightarrow>
                                (if that = Ch CHR '']''
                                 then Done (acc @ [code1, Item_char CHR ''-''], ts2)
                                 else (case item_of that of
                                         Re_error \<Rightarrow> Re_error
                                       | Outside \<Rightarrow> Outside
                                       | Done code2 \<Rightarrow>
                                           (case (code1, code2) of
                                              (Item_char lo, Item_char hi) \<Rightarrow>
                                                (if code_point hi < code_point lo then Re_error
                                                 else parse_set (acc @ [Item_range lo hi]) ts2)
                                            | _ \<Rightarrow> Re_error))))))))"

text \<open>One atom at the head of the pattern: an escape, the dot, a character set, or a
  literal character. Parentheses, braces and the anchors are outside the model.\<close>

fun parse_atom :: "token \<Rightarrow> token list \<Rightarrow> (atom \<times> token list) outcome" where
  "parse_atom (Esc e) ts =
     (case escape e of
        Done (Item_char c) \<Rightarrow> Done (Lit c, ts)
      | Done (Item_category negated k) \<Rightarrow> Done (Category negated k, ts)
      | Done (Item_range lo hi) \<Rightarrow> Outside
      | Re_error \<Rightarrow> Re_error
      | Outside \<Rightarrow> Outside)"
| "parse_atom (Ch c) ts =
     (if c = CHR ''.'' then Done (Any_char, ts)
      else if c = CHR ''['' then
        (case ts of
           [] \<Rightarrow> Re_error
         | t # ts1 \<Rightarrow>
             (case (if t = Ch CHR ''^'' then parse_set [] ts1 else parse_set [] (t # ts1)) of
                Done (items, rest) \<Rightarrow> Done (Char_set (t = Ch CHR ''^'') items, rest)
              | Re_error \<Rightarrow> Re_error
              | Outside \<Rightarrow> Outside))
      else if c \<in> set ''(){^$'' then Outside
      else Done (Lit c, ts))"

definition quantifier_of :: "token \<Rightarrow> quantifier option" where
  "quantifier_of t =
     (if t = Ch CHR ''*'' then Some Star
      else if t = Ch CHR ''+'' then Some Plus
      else if t = Ch CHR ''?'' then Some Opt
      else None)"

declare parse_set.simps(2) [simp del]

lemma parse_set_shorter:
  "parse_set acc ts = Done (items, rest) \<Longrightarrow> length rest < length ts"
proof (induction acc ts rule: parse_set.induct)
  case (1 acc)
  then show ?case by simp
next
  case (2 acc t ts)
  note unfolded = "2.prems" [unfolded parse_set.simps(2) [of acc t ts]]
  show ?case
  proof (cases "t = Ch CHR '']'' \<and> acc \<noteq> []")
    case True
    with unfolded show ?thesis by auto
  next
    case False
    with unfolded obtain code1 where c1: "item_of t = Done code1"
      by (cases "item_of t") auto
    from False unfolded c1 obtain d ts1 where ts: "ts = d # ts1"
      by (cases ts) auto
    show ?thesis
    proof (cases "d \<noteq> Ch CHR ''-''")
      case True
      with False c1 ts unfolded have "parse_set (acc @ [code1]) (d # ts1) = Done (items, rest)"
        by auto
      with "2.IH"(1) [OF False c1 ts True] ts show ?thesis by simp
    next
      case dash: False
      with False c1 ts unfolded obtain that ts2 where ts1: "ts1 = that # ts2"
        by (cases ts1) auto
      show ?thesis
      proof (cases "that = Ch CHR '']''")
        case True
        with False c1 ts dash ts1 unfolded show ?thesis by auto
      next
        case nb: False
        with False c1 ts dash ts1 unfolded obtain code2 where c2: "item_of that = Done code2"
          by (cases "item_of that") auto
        from False c1 ts dash ts1 nb c2 unfolded obtain lo hi where
          codes: "code1 = Item_char lo" "code2 = Item_char hi"
          by (cases code1; cases code2) auto
        from False c1 ts dash ts1 nb c2 codes unfolded have
          ord: "\<not> code_point hi < code_point lo" and
          rec: "parse_set (acc @ [Item_range lo hi]) ts2 = Done (items, rest)"
          by (auto split: if_splits)
        from "2.IH"(2) [OF False c1 ts dash ts1 nb c2 refl codes ord rec]
        have "length rest < length ts2" .
        with ts ts1 show ?thesis by simp
      qed
    qed
  qed
qed

lemma parse_atom_shorter:
  "parse_atom t ts = Done (a, rest) \<Longrightarrow> length rest \<le> length ts"
proof (cases t)
  case (Esc e)
  assume "parse_atom t ts = Done (a, rest)"
  with Esc show ?thesis
    by (auto split: outcome.splits set_item.splits)
next
  case (Ch c)
  assume p: "parse_atom t ts = Done (a, rest)"
  show ?thesis
  proof (cases "c = CHR ''[''")
    case False
    with p Ch show ?thesis by (auto split: if_splits)
  next
    case True
    with p Ch obtain u ts1 where ts: "ts = u # ts1" by (cases ts) auto
    with p Ch True obtain items where
      "(if u = Ch CHR ''^'' then parse_set [] ts1 else parse_set [] (u # ts1)) = Done (items, rest)"
      by (auto split: outcome.splits if_splits)
    then have "length rest < length (u # ts1)"
      by (auto dest: parse_set_shorter split: if_splits)
    with ts show ?thesis by simp
  qed
qed

text \<open>
  The alternatives of a pattern, each a sequence of atoms with their quantifiers. A
  quantifier with nothing before it is an error; a quantifier after a quantifier is
  lazy, possessive or an error, and outside the model.
\<close>

function parse_branches :: "regex \<Rightarrow> branch \<Rightarrow> token list \<Rightarrow> regex outcome" where
  "parse_branches finished cur [] = Done (finished @ [cur])"
| "parse_branches finished cur (t # ts) =
     (if t = Ch CHR ''|'' then parse_branches (finished @ [cur]) [] ts
      else if quantifier_of t \<noteq> None then (if cur = [] then Re_error else Outside)
      else (case parse_atom t ts of
              Re_error \<Rightarrow> Re_error
            | Outside \<Rightarrow> Outside
            | Done (a, rest) \<Rightarrow>
                (case rest of
                   [] \<Rightarrow> Done (finished @ [cur @ [(a, Once)]])
                 | q # rest1 \<Rightarrow>
                     (case quantifier_of q of
                        Some k \<Rightarrow> parse_branches finished (cur @ [(a, k)]) rest1
                      | None \<Rightarrow> parse_branches finished (cur @ [(a, Once)]) (q # rest1)))))"
  by pat_completeness auto
termination
  by (relation "measure (\<lambda>(finished, cur, ts). length ts)")
     (auto dest: parse_atom_shorter)

definition re_compile :: "string \<Rightarrow> regex outcome" where
  "re_compile pattern =
     (case tokens pattern of
        Done ts \<Rightarrow> parse_branches [] [] ts
      | Re_error \<Rightarrow> Re_error
      | Outside \<Rightarrow> Outside)"

subsection \<open>Matching\<close>

text \<open>\<open>\w\<close>: the characters that are alphanumeric for \<open>str.isalnum\<close>, and the
  underscore.\<close>

definition py_isword :: "char \<Rightarrow> bool" where
  "py_isword c =
     (let n = code_point c
      in (48 \<le> n \<and> n \<le> 57) \<or> (65 \<le> n \<and> n \<le> 90) \<or> n = 95 \<or> (97 \<le> n \<and> n \<le> 122)
         \<or> n = 170 \<or> n = 178 \<or> n = 179 \<or> n = 181 \<or> n = 185 \<or> n = 186
         \<or> (188 \<le> n \<and> n \<le> 190) \<or> (192 \<le> n \<and> n \<le> 214)
         \<or> (216 \<le> n \<and> n \<le> 246) \<or> (248 \<le> n \<and> n \<le> 255))"

fun in_category :: "category \<Rightarrow> char \<Rightarrow> bool" where
  "in_category Digit c = (48 \<le> code_point c \<and> code_point c \<le> 57)"
| "in_category Space c = py_isspace c"
| "in_category Word c = py_isword c"

fun item_matches :: "set_item \<Rightarrow> char \<Rightarrow> bool" where
  "item_matches (Item_char x) c = (c = x)"
| "item_matches (Item_range lo hi) c = (code_point lo \<le> code_point c \<and> code_point c \<le> code_point hi)"
| "item_matches (Item_category negated k) c = (in_category k c \<noteq> negated)"

fun atom_matches :: "atom \<Rightarrow> char \<Rightarrow> bool" where
  "atom_matches (Lit x) c = (c = x)"
| "atom_matches Any_char c = (c \<noteq> newline)"
| "atom_matches (Category negated k) c = (in_category k c \<noteq> negated)"
| "atom_matches (Char_set negated items) c = (list_ex (\<lambda>i. item_matches i c) items \<noteq> negated)"

text \<open>
  Where a match can end, as the rest of the text after it, in the order in which the
  backtracking matcher tries: a greedy quantifier takes as many characters as it can
  and gives them back one by one, and the alternatives are tried from left to right.
\<close>

fun star_ends :: "atom \<Rightarrow> string \<Rightarrow> string list" where
  "star_ends a [] = [[]]"
| "star_ends a (c # cs) = (if atom_matches a c then star_ends a cs @ [c # cs] else [c # cs])"

fun piece_ends :: "atom \<times> quantifier \<Rightarrow> string \<Rightarrow> string list" where
  "piece_ends (a, Once) s = (case s of [] \<Rightarrow> [] | c # cs \<Rightarrow> if atom_matches a c then [cs] else [])"
| "piece_ends (a, Opt) s =
     (case s of [] \<Rightarrow> [] | c # cs \<Rightarrow> if atom_matches a c then [cs] else []) @ [s]"
| "piece_ends (a, Star) s = star_ends a s"
| "piece_ends (a, Plus) s =
     (case s of [] \<Rightarrow> [] | c # cs \<Rightarrow> if atom_matches a c then star_ends a cs else [])"

fun branch_ends :: "branch \<Rightarrow> string \<Rightarrow> string list" where
  "branch_ends [] s = [s]"
| "branch_ends (p # ps) s = concat (map (branch_ends ps) (piece_ends p s))"

definition regex_ends :: "regex \<Rightarrow> string \<Rightarrow> string list" where
  "regex_ends r s = concat (map (\<lambda>b. branch_ends b s) r)"

text \<open>
  The match at the head of the text: the first end the matcher finds. After an empty
  match the next search must advance: at the position of that match an empty match is
  refused and the matcher goes on to its next choice.
\<close>

definition match_here :: "regex \<Rightarrow> bool \<Rightarrow> string \<Rightarrow> string option" where
  "match_here r must_advance s =
     find (\<lambda>rest. \<not> must_advance \<or> length rest < length s) (regex_ends r s)"

text \<open>The leftmost match: the text skipped before it and the rest after it.\<close>

fun search :: "regex \<Rightarrow> bool \<Rightarrow> string \<Rightarrow> (string \<times> string) option" where
  "search r must_advance [] =
     (case match_here r must_advance [] of None \<Rightarrow> None | Some rest \<Rightarrow> Some ([], rest))"
| "search r must_advance (c # cs) =
     (case match_here r must_advance (c # cs) of
        Some rest \<Rightarrow> Some ([], rest)
      | None \<Rightarrow>
          (case search r False cs of
             None \<Rightarrow> None
           | Some (skipped, rest) \<Rightarrow> Some (c # skipped, rest)))"

lemma star_ends_length: "rest \<in> set (star_ends a s) \<Longrightarrow> length rest \<le> length s"
  by (induction s) (auto split: if_splits)

lemma piece_ends_length: "rest \<in> set (piece_ends p s) \<Longrightarrow> length rest \<le> length s"
proof (cases p)
  case (Pair a q)
  assume "rest \<in> set (piece_ends p s)"
  with Pair show ?thesis
    by (cases q; cases s) (auto split: if_splits dest: star_ends_length)
qed

lemma branch_ends_length: "rest \<in> set (branch_ends b s) \<Longrightarrow> length rest \<le> length s"
proof (induction b arbitrary: s)
  case Nil
  then show ?case by simp
next
  case (Cons p ps)
  then obtain mid where "mid \<in> set (piece_ends p s)" and "rest \<in> set (branch_ends ps mid)"
    by auto
  with Cons.IH [of mid] piece_ends_length [of mid p s] show ?case by simp
qed

lemma regex_ends_length: "rest \<in> set (regex_ends r s) \<Longrightarrow> length rest \<le> length s"
  by (auto simp: regex_ends_def dest: branch_ends_length)

lemma match_here_length:
  assumes "match_here r must_advance s = Some rest"
  shows "length rest \<le> length s" and "must_advance \<Longrightarrow> length rest < length s"
proof -
  from assms have "rest \<in> set (regex_ends r s)"
    and "\<not> must_advance \<or> length rest < length s"
    by (auto simp: match_here_def find_Some_iff)
  then show "length rest \<le> length s" and "must_advance \<Longrightarrow> length rest < length s"
    by (auto dest: regex_ends_length)
qed

lemma search_length:
  assumes "search r must_advance s = Some (skipped, rest)"
  shows "length skipped + length rest \<le> length s"
    and "must_advance \<Longrightarrow> skipped = [] \<Longrightarrow> length rest < length s"
  using assms
proof (induction s arbitrary: must_advance skipped)
  case Nil
  {
    case 1
    then show ?case by (auto split: option.splits dest: match_here_length(1))
  next
    case 2
    then show ?case by (auto split: option.splits dest: match_here_length(2))
  }
next
  case (Cons c cs)
  {
    case 1
    show ?case
    proof (cases "match_here r must_advance (c # cs)")
      case (Some t)
      with 1 match_here_length(1) [OF Some] show ?thesis by simp
    next
      case None
      with 1 obtain u where "search r False cs = Some (u, rest)" and "skipped = c # u"
        by (auto split: option.splits)
      with Cons.IH(1) [of False u] show ?thesis by simp
    qed
  next
    case 2
    show ?case
    proof (cases "match_here r must_advance (c # cs)")
      case (Some t)
      with 2 match_here_length(2) [OF Some] show ?thesis by simp
    next
      case None
      with 2 show ?thesis by (auto split: option.splits)
    qed
  }
qed

text \<open>
  The substitution loop of \<open>re.sub\<close>: the text before the leftmost match is kept, the
  match is replaced, and the search goes on behind the match; it must advance when the
  match was empty.
\<close>

function sub_all :: "regex \<Rightarrow> string \<Rightarrow> bool \<Rightarrow> string \<Rightarrow> string" where
  "sub_all r repl must_advance s =
     (case search r must_advance s of
        None \<Rightarrow> s
      | Some (skipped, rest) \<Rightarrow>
          skipped @ repl @ sub_all r repl (length skipped + length rest = length s) rest)"
  by pat_completeness auto
termination
proof (relation "measure (\<lambda>(r, repl, must_advance, s). 2 * length s + (if must_advance then 0 else 1))",
    goal_cases)
  case 1
  show ?case by simp
next
  case (2 r repl must_advance s found skipped rest)
  then have found: "search r must_advance s = Some (skipped, rest)" by simp
  note bound = search_length(1) [OF found]
  show ?case
  proof (cases "length skipped + length rest = length s")
    case False
    with bound show ?thesis by simp
  next
    case True
    show ?thesis
    proof (cases "skipped = []")
      case False
      with True show ?thesis by (cases skipped) auto
    next
      case empty: True
      with True search_length(2) [OF found] have "\<not> must_advance" by auto
      with True empty show ?thesis by simp
    qed
  qed
qed

declare sub_all.simps [simp del]

text \<open>\<open>re.sub\<close> with a replacement that has no backslash, so that it is inserted as it
  is.\<close>

definition re_sub :: "string \<Rightarrow> string \<Rightarrow> string \<Rightarrow> string outcome" where
  "re_sub pattern repl s =
     (if backslash \<in> set repl then Outside
      else (case re_compile pattern of
              Done r \<Rightarrow> Done (sub_all r repl False s)
            | Re_error \<Rightarrow> Re_error
            | Outside \<Rightarrow> Outside))"

section \<open>The redaction of \<open>utils.py\<close>\<close>

text \<open>
  The module \<open>config\<close> is not among the sources. What \<open>replace_sensitive_strings\<close>
  reads of it, with \<open>config.pkgbot_config.get\<close>, are five values, which the model takes
  as a parameter; \<open>get\<close> gives \<open>None\<close> for a key that is not configured.
\<close>

record pkgbot_config =
  api_password :: py_value
  api_user :: py_value
  dp1_user :: py_value
  dp1_password :: py_value
  redaction_strings :: py_value

text \<open>The last alternative of the pattern, \<^verbatim>\<open>bearer\s[\w+.-]+\<close>.\<close>

definition bearer_pattern :: string where
  "bearer_pattern = ''bearer'' @ [backslash] @ ''s['' @ [backslash] @ ''w+.-]+''"

text \<open>
  \<open>replace_sensitive_strings\<close>, lines 169 to 184 of \<open>utils.py\<close>: the five values and
  the bearer pattern are formatted into one pattern with \<open>|\<close> between them, the extra
  argument is formatted behind a further \<open>|\<close> when it is true, and \<open>re.sub\<close> replaces
  the matches of the pattern by \<open><redacted>\<close>.
\<close>

definition default_sensitive_strings :: "pkgbot_config \<Rightarrow> string" where
  "default_sensitive_strings config =
     py_str (api_password config) @ ''|'' @ py_str (api_user config) @ ''|'' @
     py_str (dp1_user config) @ ''|'' @ py_str (dp1_password config) @ ''|'' @
     py_str (redaction_strings config) @ ''|'' @ bearer_pattern"

definition replace_sensitive_strings :: "pkgbot_config \<Rightarrow> string \<Rightarrow> py_value \<Rightarrow> string outcome" where
  "replace_sensitive_strings config message sensitive_strings =
     re_sub
       (if truthy sensitive_strings
        then default_sensitive_strings config @ ''|'' @ py_str sensitive_strings
        else default_sensitive_strings config)
       ''<redacted>'' message"

text \<open>A configuration: the password has a plus sign in it.\<close>

definition config0 :: pkgbot_config where
  "config0 =
     \<lparr>api_password = Py_str ''Pa+ss'', api_user = Py_str ''svc_api'',
      dp1_user = Py_str ''svc_dp'', dp1_password = Py_str ''hunter2'',
      redaction_strings = Py_str ''token-[0-9]+''\<rparr>"

section \<open>Properties of the split and of the parse\<close>

text \<open>The split never returns an empty list, joining its segments with the separator
  gives the text back, a text without the separator is its own single segment, and no
  segment contains the separator.\<close>

lemma split_on_not_Nil: "split_on sep s \<noteq> []"
  by (induction sep s rule: split_on.induct) (auto split: list.splits)

lemma py_join_split_on: "py_join sep (split_on sep s) = s"
proof (induction sep s rule: split_on.induct)
  case (1 sep)
  show ?case by simp
next
  case (2 sep c cs)
  show ?case
  proof (cases "sep \<noteq> [] \<and> prefix sep (c # cs)")
    case True
    then obtain rest where r: "c # cs = sep @ rest" by (auto simp: prefix_def)
    have "split_on sep (drop (length sep) (c # cs)) \<noteq> []" by (rule split_on_not_Nil)
    then obtain w ws where ws: "split_on sep (drop (length sep) (c # cs)) = w # ws"
      by (cases "split_on sep (drop (length sep) (c # cs))") auto
    from 2(1)[OF True] ws have "py_join sep (w # ws) = drop (length sep) (c # cs)" by simp
    with r have "py_join sep (w # ws) = rest" by simp
    moreover from True ws have "split_on sep (c # cs) = [] # w # ws" by simp
    ultimately show ?thesis using r by simp
  next
    case False
    obtain w ws where ws: "split_on sep cs = w # ws"
      using split_on_not_Nil[of sep cs] by (cases "split_on sep cs") auto
    from 2(2)[OF False] ws have "py_join sep (w # ws) = cs" by simp
    with False ws show ?thesis by (cases ws) auto
  qed
qed

lemma split_on_single_iff:
  assumes "sep \<noteq> []"
  shows "split_on sep s = [s] \<longleftrightarrow> \<not> sublist sep s"
  using assms
proof (induction sep s rule: split_on.induct)
  case (1 sep)
  then show ?case by simp
next
  case (2 sep c cs)
  show ?case
  proof (cases "prefix sep (c # cs)")
    case True
    with 2(3) show ?thesis by (auto simp: sublist_Cons_right)
  next
    case False
    obtain w ws where ws: "split_on sep cs = w # ws"
      using split_on_not_Nil[of sep cs] by (cases "split_on sep cs") auto
    from False 2(2) 2(3) have "split_on sep cs = [cs] \<longleftrightarrow> \<not> sublist sep cs" by simp
    with False ws 2(3) show ?thesis by (auto simp: sublist_Cons_right)
  qed
qed

lemma split_on_segments_free:
  assumes "sep \<noteq> []"
  shows "list_all (\<lambda>w. \<not> sublist sep w) (split_on sep s)"
  using assms
proof (induction sep s rule: split_on.induct)
  case (1 sep)
  then show ?case by simp
next
  case (2 sep c cs)
  show ?case
  proof (cases "prefix sep (c # cs)")
    case True
    with 2(1) 2(3) show ?thesis by simp
  next
    case False
    obtain w ws where ws: "split_on sep cs = w # ws"
      using split_on_not_Nil[of sep cs] by (cases "split_on sep cs") auto
    from False 2(2) 2(3) ws have ih: "\<not> sublist sep w" "list_all (\<lambda>w. \<not> sublist sep w) ws" by auto
    have "py_join sep (w # ws) = cs" using py_join_split_on[of sep cs] ws by simp
    then have "prefix w cs" by (cases ws) auto
    then have "prefix (c # w) (c # cs)" by simp
    with False have "\<not> prefix sep (c # w)" using prefix_order.trans by blast
    with ih(1) have "\<not> sublist sep (c # w)" by (simp add: sublist_Cons_right)
    with False ws 2(3) ih show ?thesis by simp
  qed
qed


text \<open>The fold of \<open>recipe_error\<close> over the reversed segments is the nesting of the
  segments; it never raises, so the parse never takes its \<open>except\<close> branch.\<close>

lemma reduce_from_snoc:
  "reduce_from f acc (ys @ [y]) =
     (case reduce_from f acc ys of Inl e \<Rightarrow> Inl e | Inr a \<Rightarrow> f a y)"
  by (induction ys arbitrary: acc) (auto split: sum.splits)

lemma reduce_from_wrap_key:
  "reduce_from wrap_key acc (map Str (rev ks)) = Inr (foldr Dict ks acc)"
  by (induction ks arbitrary: acc) (simp_all add: reduce_from_snoc wrap_key_def)

lemma nest_Cons: "ks \<noteq> [] \<Longrightarrow> nest (k # ks) = Dict k (nest ks)"
  by (cases ks) auto

lemma nest_snoc: "nest (ks @ [v]) = foldr Dict ks (Str v)"
  by (induction ks) (simp_all add: nest_Cons)

lemma py_reduce_nest:
  assumes "segs \<noteq> []"
  shows "py_reduce wrap_key (map Str (rev segs)) = Inr (nest segs)"
proof -
  from assms obtain ks v where segs: "segs = ks @ [v]"
    by (metis append_butlast_last_id)
  show ?thesis unfolding segs by (simp add: reduce_from_wrap_key nest_snoc)
qed

lemma parse_error_nest: "parse_error recipe_id error = nest (split_on separator error)"
  by (simp add: parse_error_def py_split_def separator_def py_reduce_nest split_on_not_Nil)

lemma key_path_nest: "segs \<noteq> [] \<Longrightarrow> key_path (nest segs) = butlast segs"
  by (induction segs rule: nest.induct) auto

lemma innermost_nest: "segs \<noteq> [] \<Longrightarrow> innermost (nest segs) = last segs"
  by (induction segs rule: nest.induct) auto

section \<open>Properties of the store and of the handlers\<close>

text \<open>A created error message has an id that no row of the table has, so the update
  that follows finds exactly this row.\<close>

lemma fold_max_ge: "(a::int) \<le> fold max xs a"
  by (induction xs arbitrary: a) (auto intro: order_trans[OF max.cobounded2])

lemma fold_max_mem: "x \<in> set xs \<Longrightarrow> (x::int) \<le> fold max xs a"
proof (induction xs arbitrary: a)
  case Nil then show ?case by simp
next
  case (Cons y ys)
  show ?case
  proof (cases "x = y")
    case True
    have "max y a \<le> fold max ys (max y a)" by (rule fold_max_ge)
    with True show ?thesis by simp
  next
    case False
    with Cons show ?thesis by simp
  qed
qed

lemma next_id_fresh: "e \<in> set rows \<Longrightarrow> e_id e < next_id rows"
  using fold_max_mem[of "e_id e" "map e_id rows" 0] by (simp add: next_id_def)

lemma filter_next_id: "filter (\<lambda>e. e_id e = next_id rows) rows = []"
  using next_id_fresh by (fastforce simp: filter_empty_conv)

lemma create_error_keys:
  "distinct (map e_id rows) \<Longrightarrow> distinct (map e_id (snd (create_error recipe_id rows)))"
proof -
  assume d: "distinct (map e_id rows)"
  have "next_id rows \<notin> e_id ` set rows" using next_id_fresh by force
  with d show ?thesis by (simp add: create_error_def Let_def)
qed

lemma update_or_create_keys:
  "update_or_create a b i rows = Inr rows' \<Longrightarrow> map e_id rows' = map e_id rows"
  by (auto simp: update_or_create_def split: list.splits)

lemma orm_get_mem: "orm_get P rows = Inr x \<Longrightarrow> x \<in> set rows \<and> P x"
proof -
  assume "orm_get P rows = Inr x"
  then have "filter P rows = [x]" by (auto simp: orm_get_def split: list.splits)
  then have "x \<in> set (filter P rows)" by simp
  then show ?thesis by simp
qed

lemma filter_id_single:
  assumes "distinct (map e_id rows)" and "e \<in> set rows"
  shows "filter (\<lambda>x. e_id x = e_id e) rows = [e]"
  using assms
proof (induction rows)
  case Nil
  then show ?case by simp
next
  case (Cons x xs)
  show ?case
  proof (cases "x = e")
    case True
    with Cons.prems have "\<forall>y \<in> set xs. e_id y \<noteq> e_id e" by (auto simp: image_iff)
    then have "filter (\<lambda>x. e_id x = e_id e) xs = []" by (simp add: filter_empty_conv)
    with True show ?thesis by simp
  next
    case False
    with Cons.prems have "e \<in> set xs" "e_id x \<noteq> e_id e" by auto
    with Cons show ?thesis by simp
  qed
qed

lemma update_or_create_found:
  assumes "distinct (map e_id rows)" and "e \<in> set rows"
  shows "update_or_create a b (e_id e) rows =
           Inr (map (\<lambda>x. if e_id x = e_id e
                           then x\<lparr>e_slack_ts := a, e_slack_channel := b\<rparr> else x) rows)"
  by (simp add: update_or_create_def filter_id_single [OF assms])

text \<open>Saving a recipe keeps the primary keys, and changes what fetching by
  \<open>recipe_id\<close> shows for the saved recipe only.\<close>

lemma save_recipe_keys: "map r_id (save_recipe r rows) = map r_id rows"
  by (induction rows) (auto simp: save_recipe_def)

lemma first_recipe_Some: "first_recipe rid rows = Some r \<Longrightarrow> r \<in> set rows \<and> r_recipe_id r = rid"
  by (auto simp: first_recipe_def find_Some_iff)

lemma save_recipe_absent:
  "\<forall>x \<in> set rows. r_id x \<noteq> r_id r \<Longrightarrow> save_recipe r rows = rows"
  by (induction rows) (auto simp: save_recipe_def)

lemma first_recipe_save:
  assumes "distinct (map r_id rows)" and "first_recipe target rows = Some r"
  shows "map_option r_enabled (first_recipe rid (save_recipe (r\<lparr>r_enabled := b\<rparr>) rows)) =
         (if rid = target then Some b else map_option r_enabled (first_recipe rid rows))"
  using assms
proof (induction rows)
  case Nil
  then show ?case by (simp add: first_recipe_def)
next
  case (Cons x xs)
  show ?case
  proof (cases "r_recipe_id x = target")
    case True
    with Cons.prems(2) have rx: "r = x" by (simp add: first_recipe_def)
    from Cons.prems(1) have "\<forall>y \<in> set xs. r_id y \<noteq> r_id (r\<lparr>r_enabled := b\<rparr>)"
      by (auto simp: rx image_iff)
    then have "save_recipe (r\<lparr>r_enabled := b\<rparr>) xs = xs" by (rule save_recipe_absent)
    then have "save_recipe (r\<lparr>r_enabled := b\<rparr>) (x # xs) = r\<lparr>r_enabled := b\<rparr> # xs"
      by (simp add: save_recipe_def rx)
    with True rx show ?thesis by (simp add: first_recipe_def)
  next
    case False
    with Cons.prems(2) have f: "first_recipe target xs = Some r" by (simp add: first_recipe_def)
    then have "r \<in> set xs" by (simp add: first_recipe_Some)
    with Cons.prems(1) have ne: "r_id x \<noteq> r_id r" by auto
    from Cons.prems(1) have "distinct (map r_id xs)" by simp
    from Cons.IH[OF this f]
    have ih: "map_option r_enabled (first_recipe rid (save_recipe (r\<lparr>r_enabled := b\<rparr>) xs)) =
         (if rid = target then Some b else map_option r_enabled (first_recipe rid xs))" .
    from ne have "save_recipe (r\<lparr>r_enabled := b\<rparr>) (x # xs) =
        x # save_recipe (r\<lparr>r_enabled := b\<rparr>) xs"
      by (simp add: save_recipe_def)
    then have step: "first_recipe rid (save_recipe (r\<lparr>r_enabled := b\<rparr>) (x # xs)) =
        (if r_recipe_id x = rid then Some x
         else first_recipe rid (save_recipe (r\<lparr>r_enabled := b\<rparr>) xs))"
      by (simp add: first_recipe_def)
    have orig: "first_recipe rid (x # xs) =
        (if r_recipe_id x = rid then Some x else first_recipe rid xs)"
      by (simp add: first_recipe_def)
    show ?thesis
    proof (cases "r_recipe_id x = rid")
      case True
      with False step orig show ?thesis by auto
    next
      case neq: False
      with step orig ih show ?thesis by simp
    qed
  qed
qed


text \<open>The handlers that create an error message, in closed form.\<close>

lemma update_or_create_new:
  "update_or_create a b (next_id rows)
     (rows @ [\<lparr>e_id = next_id rows, e_recipe_id = rid, e_slack_ts = None, e_slack_channel = None\<rparr>]) =
   Inr (rows @ [\<lparr>e_id = next_id rows, e_recipe_id = rid, e_slack_ts = a, e_slack_channel = b\<rparr>])"
proof -
  have "\<forall>e \<in> set rows. e_id e \<noteq> next_id rows" using next_id_fresh by force
  then have "map (\<lambda>e. if e_id e = next_id rows
                       then e\<lparr>e_slack_ts := a, e_slack_channel := b\<rparr> else e) rows = rows"
    by (simp add: map_idI)
  then show ?thesis by (simp add: update_or_create_def filter_next_id)
qed

lemma recipe_error_eq:
  "recipe_error slack w recipe_id error =
     (case first_recipe recipe_id (recipes w) of
        None \<Rightarrow> (Inl AttributeError, reported slack w recipe_id error)
      | Some r \<Rightarrow>
          (Inr (Result ''Success''),
           (reported slack w recipe_id error)
             \<lparr>recipes := save_recipe (r\<lparr>r_enabled := False\<rparr>) (recipes w)\<rparr>))"
  by (simp add: recipe_error_def create_error_def Let_def update_or_create_new reported_def
           split: option.splits)

lemma verify_failed_eq:
  "reciepe_trust_verify_failed slack w recipe_id msg =
     (let e = \<lparr>e_id = next_id (error_messages w), e_recipe_id = recipe_id,
                e_slack_ts = None, e_slack_channel = None\<rparr>;
          w2 = w\<lparr>error_messages := error_messages w @ [e], sent := sent w @ [Trust_diff_msg msg e]\<rparr>
      in case first_recipe recipe_id (recipes w) of
        None \<Rightarrow> (Inl AttributeError, w2)
      | Some r \<Rightarrow>
          (Inr (Result ''Success''),
           w2\<lparr>recipes := save_recipe (r\<lparr>r_enabled := False\<rparr>) (recipes w)\<rparr>))"
  by (simp add: reciepe_trust_verify_failed_def create_error_def Let_def split: option.splits)

text \<open>On a store with primary keys, an event changes the recipes as \<open>enabled_write\<close>
  says, the keys stay primary keys, and so \<open>enabled\<close> follows the last write of a
  run.\<close>

lemma recipes_handle:
  assumes "primary_keys w"
  shows "recipes (snd (handle slack w ev)) =
     (case enabled_write w ev of
        None \<Rightarrow> recipes w
      | Some (rid, b) \<Rightarrow>
          (case first_recipe rid (recipes w) of
             None \<Rightarrow> recipes w
           | Some r \<Rightarrow> save_recipe (r\<lparr>r_enabled := b\<rparr>) (recipes w)))"
proof (cases ev)
  case (Report_error rid err)
  then show ?thesis
    by (auto simp: recipe_error_eq enabled_write_def reported_def Let_def split: option.splits)
next
  case (Request_trust_update i u c)
  then show ?thesis
    by (auto simp: recipe_trust_update_def enabled_write_def Let_def split: option.splits sum.splits)
next
  case (Deny_trust i)
  then show ?thesis
    by (auto simp: recipe_trust_deny_def enabled_write_def split: sum.splits)
next
  case (Update_succeeded rid msg i)
  then show ?thesis
    by (auto simp: recipe_trust_update_success_def enabled_write_def split: sum.splits)
next
  case (Update_failed rid msg)
  show ?thesis
  proof (cases "orm_get (\<lambda>e. e_recipe_id e = rid) (error_messages w)")
    case (Inl err)
    with Update_failed show ?thesis
      by (simp add: recipe_trust_update_failed_def enabled_write_def)
  next
    case (Inr e)
    then have mem: "e \<in> set (error_messages w)" and rid: "e_recipe_id e = rid"
      using orm_get_mem[of "\<lambda>e. e_recipe_id e = rid"] by auto
    from assms mem obtain rows' where
      "update_or_create (res_ts (slack (Update_trust_error_msg msg e)))
         (res_channel (slack (Update_trust_error_msg msg e))) (e_id e) (error_messages w) = Inr rows'"
      using update_or_create_found [of "error_messages w" e] by (simp add: primary_keys_def)
    with Update_failed Inr rid show ?thesis
      by (auto simp: recipe_trust_update_failed_def enabled_write_def Let_def split: option.splits)
  qed
next
  case (Verify_failed rid msg)
  then show ?thesis
    by (auto simp: verify_failed_eq enabled_write_def Let_def split: option.splits)
qed

lemma errors_handle_keys:
  assumes "distinct (map e_id (error_messages w))"
  shows "distinct (map e_id (error_messages (snd (handle slack w ev))))"
proof (cases ev)
  case (Report_error rid err)
  have "next_id (error_messages w) \<notin> e_id ` set (error_messages w)"
    using next_id_fresh by force
  with assms Report_error show ?thesis
    by (auto simp: recipe_error_eq reported_def Let_def split: option.splits)
next
  case (Request_trust_update i u c)
  with assms show ?thesis
    by (auto simp: recipe_trust_update_def Let_def split: option.splits sum.splits)
next
  case (Deny_trust i)
  with assms show ?thesis
    by (auto simp: recipe_trust_deny_def split: sum.splits)
next
  case (Update_succeeded rid msg i)
  with assms show ?thesis
    by (auto simp: recipe_trust_update_success_def split: sum.splits)
next
  case (Update_failed rid msg)
  with assms show ?thesis
    by (auto simp: recipe_trust_update_failed_def Let_def
             dest: update_or_create_keys split: option.splits sum.splits)
next
  case (Verify_failed rid msg)
  have "next_id (error_messages w) \<notin> e_id ` set (error_messages w)"
    using next_id_fresh by force
  with assms Verify_failed show ?thesis
    by (auto simp: verify_failed_eq Let_def split: option.splits)
qed

lemma primary_keys_handle:
  assumes "primary_keys w"
  shows "primary_keys (snd (handle slack w ev))"
proof -
  from assms have "distinct (map r_id (recipes (snd (handle slack w ev))))"
    by (auto simp: recipes_handle primary_keys_def save_recipe_keys split: option.splits)
  moreover from assms have "distinct (map e_id (error_messages (snd (handle slack w ev))))"
    by (simp add: errors_handle_keys primary_keys_def)
  ultimately show ?thesis by (simp add: primary_keys_def)
qed

lemma enabled_of_handle:
  assumes "primary_keys w"
  shows "enabled_of (snd (handle slack w ev)) rid =
     (case enabled_write w ev of
        None \<Rightarrow> enabled_of w rid
      | Some (written, b) \<Rightarrow> if written = rid then Some b else enabled_of w rid)"
proof (cases "enabled_write w ev")
  case None
  with assms show ?thesis by (simp add: enabled_of_def recipes_handle)
next
  case (Some p)
  obtain written b where p: "p = (written, b)" by (cases p)
  have "first_recipe written (recipes w) \<noteq> None"
    using Some p by (auto simp: enabled_write_def split: event.splits if_splits sum.splits)
  then obtain r where r: "first_recipe written (recipes w) = Some r" by auto
  from assms have d: "distinct (map r_id (recipes w))" by (simp add: primary_keys_def)
  from assms Some p r have "recipes (snd (handle slack w ev)) =
      save_recipe (r\<lparr>r_enabled := b\<rparr>) (recipes w)"
    by (simp add: recipes_handle)
  with first_recipe_save[OF d r, of rid b] Some p show ?thesis
    by (simp add: enabled_of_def)
qed

lemma enabled_follows_last_write:
  assumes "primary_keys w"
  shows "enabled_of (run slack w evs) rid =
           (case last_write slack w evs rid of None \<Rightarrow> enabled_of w rid | Some b \<Rightarrow> Some b)"
  using assms
proof (induction evs arbitrary: w)
  case Nil
  show ?case by simp
next
  case (Cons ev evs)
  from Cons.prems have "primary_keys (snd (handle slack w ev))" by (rule primary_keys_handle)
  from Cons.IH[OF this] enabled_of_handle[OF Cons.prems, of slack ev rid]
  show ?case by (auto split: option.splits)
qed

lemma last_write_True_requested:
  "last_write slack w evs rid = Some True \<Longrightarrow> \<exists>i u c. Request_trust_update i u c \<in> set evs"
proof (induction evs arbitrary: w)
  case Nil
  then show ?case by simp
next
  case (Cons ev evs)
  show ?case
  proof (cases "last_write slack (snd (handle slack w ev)) evs rid = Some True")
    case True
    from Cons.IH[OF this] show ?thesis by auto
  next
    case False
    with Cons.prems have "\<exists>written. enabled_write w ev = Some (written, True)"
      by (auto split: option.splits if_splits)
    then have "\<exists>i u c. ev = Request_trust_update i u c"
      by (auto simp: enabled_write_def split: event.splits if_splits sum.splits)
    then show ?thesis by auto
  qed
qed

section \<open>What the disabling handlers do, with and without the recipe\<close>

lemma first_recipe_save_target:
  assumes "first_recipe target rows = Some r"
  shows "map_option r_enabled (first_recipe target (save_recipe (r\<lparr>r_enabled := b\<rparr>) rows)) = Some b"
  using assms
proof (induction rows)
  case Nil
  then show ?case by (simp add: first_recipe_def)
next
  case (Cons x xs)
  from Cons.prems have target: "r_recipe_id r = target" by (simp add: first_recipe_Some)
  show ?case
  proof (cases "r_id x = r_id r")
    case True
    with target show ?thesis by (simp add: save_recipe_def first_recipe_def)
  next
    case False
    then have "x \<noteq> r" by auto
    with Cons.prems have x: "r_recipe_id x \<noteq> target" and f: "first_recipe target xs = Some r"
      by (auto simp: first_recipe_def split: if_splits)
    from Cons.IH [OF f] False x show ?thesis by (simp add: save_recipe_def first_recipe_def)
  qed
qed

text \<open>Reporting an error for a recipe that is there succeeds and leaves the recipe
  disabled; for a recipe that is not there it raises, in every store.\<close>

lemma recipe_error_disables:
  assumes "first_recipe recipe_id (recipes w) = Some r"
  shows "fst (recipe_error slack w recipe_id error) = Inr (Result ''Success'')"
    and "enabled_of (snd (recipe_error slack w recipe_id error)) recipe_id = Some False"
  using assms first_recipe_save_target [OF assms, of False]
  by (simp_all add: recipe_error_eq enabled_of_def)

lemma recipe_error_raises:
  assumes "first_recipe recipe_id (recipes w) = None"
  shows "recipe_error slack w recipe_id error =
           (Inl AttributeError, reported slack w recipe_id error)"
  using assms by (simp add: recipe_error_eq)

text \<open>The same for the verify-failed callback.\<close>

lemma verify_failed_disables:
  assumes "first_recipe recipe_id (recipes w) = Some r"
  shows "fst (reciepe_trust_verify_failed slack w recipe_id msg) = Inr (Result ''Success'')"
    and "enabled_of (snd (reciepe_trust_verify_failed slack w recipe_id msg)) recipe_id =
           Some False"
  using assms first_recipe_save_target [OF assms, of False]
  by (simp_all add: verify_failed_eq enabled_of_def Let_def)

lemma verify_failed_raises:
  assumes "first_recipe recipe_id (recipes w) = None"
  shows "fst (reciepe_trust_verify_failed slack w recipe_id msg) = Inl AttributeError"
  using assms by (simp add: verify_failed_eq Let_def)

text \<open>
  The update-failed callback. With exactly one error message of the \<open>recipe_id\<close>, on a
  table with primary keys, and with the recipe there, it sends the failure message,
  stores the handles of the answer on that error message and leaves the recipe disabled.
  With two or more error messages of the \<open>recipe_id\<close> it raises before it does
  anything.
\<close>

lemma update_failed_disables:
  assumes "orm_get (\<lambda>e. e_recipe_id e = recipe_id) (error_messages w) = Inr error_object"
    and "distinct (map e_id (error_messages w))"
    and "first_recipe recipe_id (recipes w) = Some r"
  shows "fst (recipe_trust_update_failed slack w recipe_id msg) = Inr (Result ''Success'')"
    and "sent (snd (recipe_trust_update_failed slack w recipe_id msg)) =
           sent w @ [Update_trust_error_msg msg error_object]"
    and "error_messages (snd (recipe_trust_update_failed slack w recipe_id msg)) =
           map (\<lambda>x. if e_id x = e_id error_object
                      then x\<lparr>e_slack_ts := res_ts (slack (Update_trust_error_msg msg error_object)),
                             e_slack_channel :=
                               res_channel (slack (Update_trust_error_msg msg error_object))\<rparr>
                      else x) (error_messages w)"
    and "enabled_of (snd (recipe_trust_update_failed slack w recipe_id msg)) recipe_id =
           Some False"
proof -
  from assms(1) have mem: "error_object \<in> set (error_messages w)"
    and rid: "e_recipe_id error_object = recipe_id"
    using orm_get_mem [of "\<lambda>e. e_recipe_id e = recipe_id"] by auto
  note stored = update_or_create_found [OF assms(2) mem]
  from assms(1,3) rid stored
  show "fst (recipe_trust_update_failed slack w recipe_id msg) = Inr (Result ''Success'')"
    and "sent (snd (recipe_trust_update_failed slack w recipe_id msg)) =
           sent w @ [Update_trust_error_msg msg error_object]"
    and "error_messages (snd (recipe_trust_update_failed slack w recipe_id msg)) =
           map (\<lambda>x. if e_id x = e_id error_object
                      then x\<lparr>e_slack_ts := res_ts (slack (Update_trust_error_msg msg error_object)),
                             e_slack_channel :=
                               res_channel (slack (Update_trust_error_msg msg error_object))\<rparr>
                      else x) (error_messages w)"
    by (simp_all add: recipe_trust_update_failed_def Let_def)
  from assms(1,3) rid stored first_recipe_save_target [OF assms(3), of False]
  show "enabled_of (snd (recipe_trust_update_failed slack w recipe_id msg)) recipe_id =
           Some False"
    by (simp add: recipe_trust_update_failed_def Let_def enabled_of_def)
qed

lemma update_failed_raises_on_several:
  assumes "2 \<le> length (filter (\<lambda>e. e_recipe_id e = recipe_id) (error_messages w))"
  shows "recipe_trust_update_failed slack w recipe_id msg = (Inl MultipleObjectsReturned, w)"
proof -
  from assms obtain a b rest where
    "filter (\<lambda>e. e_recipe_id e = recipe_id) (error_messages w) = a # b # rest"
    by (cases "filter (\<lambda>e. e_recipe_id e = recipe_id) (error_messages w)" rule: list.exhaust;
        cases "tl (filter (\<lambda>e. e_recipe_id e = recipe_id) (error_messages w))") auto
  then show ?thesis by (simp add: recipe_trust_update_failed_def orm_get_def)
qed

section \<open>The claims about the parse of the error text\<close>

text \<open>
  C1. Claimed: an error text without the separator, or one whose parse raises (the empty
  text is named), is passed on as the flat mapping \<open>{recipe_id: error}\<close>. The code does
  not do so: \<open>split\<close> returns the whole text as its only segment, \<open>reduce\<close> over one
  element returns that element, nothing raises, and the bare string is passed to the
  notification. Evaluated for the recipe \<open>R123\<close> and the texts \<open>boom\<close> and the empty
  one: the parse, the fallback shape it differs from, and the message the handler sends.
\<close>

theorem recipe_error_no_separator_passes_string:
  "parse_error ''R123'' ''boom'' = Str ''boom''
   \<and> parse_error ''R123'' ''boom'' \<noteq> Dict ''R123'' (Str ''boom'')
   \<and> parse_error ''R123'' [] = Str []
   \<and> sent (snd (recipe_error slack0 one_recipe ''R123'' ''boom'')) =
       [Recipe_error_msg ''R123'' 1 (Str ''boom'')]"
  by (simp add: parse_error_nest separator_def recipe_error_eq reported_def Let_def
        one_recipe_def first_recipe_def next_id_def)

text \<open>The same for every text: the parse never takes the \<open>except\<close> branch, and a text
  without the separator is passed on as it is.\<close>

lemma parse_error_no_separator:
  assumes "\<not> sublist separator error"
  shows "parse_error recipe_id error = Str error"
proof -
  from assms have "split_on separator error = [error]"
    by (simp add: split_on_single_iff separator_def)
  then show ?thesis by (simp add: parse_error_nest)
qed

text \<open>
  C6. An error text that contains the separator is split at the separator and the
  segments are right-folded into nested single-key mappings: there are at least two
  segments, the first is the outermost key, the last the innermost value; the key path
  of the result is the segments without the last, and joining key path and innermost
  value with the separator gives the error text back.
\<close>

theorem parse_error_nested:
  assumes "sublist separator error"
  shows "parse_error recipe_id error = nest (split_on separator error)
         \<and> 2 \<le> length (split_on separator error)
         \<and> parse_error recipe_id error =
             Dict (hd (split_on separator error)) (nest (tl (split_on separator error)))
         \<and> key_path (parse_error recipe_id error) = butlast (split_on separator error)
         \<and> innermost (parse_error recipe_id error) = last (split_on separator error)
         \<and> py_join separator
              (key_path (parse_error recipe_id error) @ [innermost (parse_error recipe_id error)])
             = error"
proof -
  let ?segs = "split_on separator error"
  have ne: "?segs \<noteq> []" by (rule split_on_not_Nil)
  have joined: "py_join separator ?segs = error" by (rule py_join_split_on)
  have "?segs \<noteq> [error]"
    using assms by (simp add: split_on_single_iff separator_def)
  with joined have "length ?segs \<noteq> 1"
    by (cases ?segs) auto
  moreover from ne have "length ?segs \<noteq> 0" by simp
  ultimately have two: "2 \<le> length ?segs" by arith
  then obtain k ks where segs: "?segs = k # ks" and ks: "ks \<noteq> []"
    by (cases ?segs) (auto simp: Suc_le_eq)
  have p: "parse_error recipe_id error = nest ?segs" by (rule parse_error_nest)
  have outer: "nest ?segs = Dict (hd ?segs) (nest (tl ?segs))"
    by (simp add: segs nest_Cons ks)
  have path: "key_path (nest ?segs) = butlast ?segs" by (rule key_path_nest [OF ne])
  have inner: "innermost (nest ?segs) = last ?segs" by (rule innermost_nest [OF ne])
  have "butlast ?segs @ [last ?segs] = ?segs" using ne by simp
  with joined have "py_join separator (butlast ?segs @ [last ?segs]) = error" by simp
  with p two outer path inner show ?thesis by simp
qed

theorem parse_error_nested_witness:
  "sublist separator ''Download: Network: Timeout''
   \<and> parse_error ''R123'' ''Download: Network: Timeout'' =
       Dict ''Download'' (Dict ''Network'' (Str ''Timeout''))
   \<and> key_path (parse_error ''R123'' ''Download: Network: Timeout'') = [''Download'', ''Network'']"
proof -
  have h: "sublist separator ''Download: Network: Timeout''"
    by (simp add: separator_def sublist_Cons_right)
  have s: "split_on separator ''Download: Network: Timeout'' = [''Download'', ''Network'', ''Timeout'']"
    by (simp add: separator_def)
  from parse_error_nested [OF h, of "''R123''"] h s show ?thesis by simp
qed

section \<open>The claims about the handlers\<close>

lemmas store_defs =
  create_error_def next_id_def update_or_create_def first_recipe_def save_recipe_def
  orm_get_def trust_task_def missing_text_def Let_def

lemmas example_defs = slack0_def no_recipe_def one_recipe_def

text \<open>
  C3. Claimed: a reported error for a \<open>recipe_id\<close> without a recipe is tolerated, the
  notification is sent and the disable step is skipped. The code sends the notification
  and stores the error message with its handles, and then raises: \<open>first()\<close> returns
  \<open>None\<close> and \<open>recipe_object.enabled = False\<close> is an attribute assignment on
  \<open>None\<close>. \<open>recipe_trust_update\<close> tests \<open>if recipe_object\<close> before it writes; this
  handler does not. Evaluated on the store without recipes.
\<close>

theorem recipe_error_missing_recipe_raises:
  "recipe_error slack0 no_recipe ''R123'' ''Download: Timeout'' =
     (Inl AttributeError,
      \<lparr>recipes = [],
       error_messages =
         [\<lparr>e_id = 1, e_recipe_id = ''R123'',
           e_slack_ts = Some ''1700000000.000100'', e_slack_channel = Some ''C024BE91L''\<rparr>],
       background_tasks = [],
       sent = [Recipe_error_msg ''R123'' 1 (Dict ''Download'' (Str ''Timeout''))]\<rparr>)"
  by (simp add: recipe_error_eq reported_def parse_error_nest separator_def
        store_defs example_defs)

text \<open>
  C4. When the error message with the given id is there and a recipe has its
  \<open>recipe_id\<close>, requesting a trust update hands the task with the arguments
  \<open>--recipe-identifier <recipe_id> --action trust --error_id <id>\<close> to the background
  tasks, saves the recipe with \<open>enabled\<close> true and answers that the task is queued: the
  task has not run, no message is sent and no error message changes. Fetching the recipe
  afterwards shows it enabled.
\<close>

theorem trust_update_queues_and_enables:
  assumes "orm_get (\<lambda>e. e_id e = i) (error_messages w) = Inr error_object"
    and "first_recipe (e_recipe_id error_object) (recipes w) = Some recipe_object"
  shows "recipe_trust_update slack w i user_id chan =
           (Inr (Result ''Queued background task...''),
            w\<lparr>background_tasks :=
                 background_tasks w @
                   [[Arg_str ''--recipe-identifier'', Arg_str (e_recipe_id error_object),
                     Arg_str ''--action'', Arg_str ''trust'',
                     Arg_str ''--error_id'', Arg_int i]],
               recipes := save_recipe (recipe_object\<lparr>r_enabled := True\<rparr>) (recipes w)\<rparr>)
         \<and> enabled_of (snd (recipe_trust_update slack w i user_id chan))
               (e_recipe_id error_object) = Some True
         \<and> error_messages (snd (recipe_trust_update slack w i user_id chan)) = error_messages w
         \<and> sent (snd (recipe_trust_update slack w i user_id chan)) = sent w"
proof -
  have eq: "recipe_trust_update slack w i user_id chan =
           (Inr (Result ''Queued background task...''),
            w\<lparr>background_tasks :=
                 background_tasks w @
                   [[Arg_str ''--recipe-identifier'', Arg_str (e_recipe_id error_object),
                     Arg_str ''--action'', Arg_str ''trust'',
                     Arg_str ''--error_id'', Arg_int i]],
               recipes := save_recipe (recipe_object\<lparr>r_enabled := True\<rparr>) (recipes w)\<rparr>)"
    using assms by (simp add: recipe_trust_update_def trust_task_def Let_def)
  moreover have "enabled_of (snd (recipe_trust_update slack w i user_id chan))
      (e_recipe_id error_object) = Some True"
    using first_recipe_save_target [OF assms(2), of True] by (simp add: eq enabled_of_def)
  ultimately show ?thesis by simp
qed

theorem trust_update_queues_and_enables_witness:
  "orm_get (\<lambda>e. e_id e = 1) (error_messages (run slack0 one_recipe [Report_error ''R123'' ''boom''])) =
     Inr \<lparr>e_id = 1, e_recipe_id = ''R123'',
          e_slack_ts = Some ''1700000000.000100'', e_slack_channel = Some ''C024BE91L''\<rparr>
   \<and> first_recipe ''R123'' (recipes (run slack0 one_recipe [Report_error ''R123'' ''boom''])) =
       Some \<lparr>r_id = 1, r_recipe_id = ''R123'', r_enabled = False\<rparr>
   \<and> background_tasks
       (snd (recipe_trust_update slack0 (run slack0 one_recipe [Report_error ''R123'' ''boom''])
               1 ''U1'' ''D1'')) =
       [[Arg_str ''--recipe-identifier'', Arg_str ''R123'', Arg_str ''--action'', Arg_str ''trust'',
         Arg_str ''--error_id'', Arg_int 1]]
   \<and> enabled_of
       (snd (recipe_trust_update slack0 (run slack0 one_recipe [Report_error ''R123'' ''boom''])
               1 ''U1'' ''D1'')) ''R123'' = Some True"
proof -
  let ?w = "run slack0 one_recipe [Report_error ''R123'' ''boom'']"
  have w: "?w = \<lparr>recipes = [\<lparr>r_id = 1, r_recipe_id = ''R123'', r_enabled = False\<rparr>],
       error_messages =
         [\<lparr>e_id = 1, e_recipe_id = ''R123'',
           e_slack_ts = Some ''1700000000.000100'', e_slack_channel = Some ''C024BE91L''\<rparr>],
       background_tasks = [],
       sent = [Recipe_error_msg ''R123'' 1 (Str ''boom'')]\<rparr>"
    by (simp add: recipe_error_eq reported_def parse_error_nest separator_def
          store_defs example_defs)
  have h1: "orm_get (\<lambda>e. e_id e = 1) (error_messages ?w) =
     Inr \<lparr>e_id = 1, e_recipe_id = ''R123'',
          e_slack_ts = Some ''1700000000.000100'', e_slack_channel = Some ''C024BE91L''\<rparr>"
    unfolding w by (simp add: orm_get_def)
  have h2: "first_recipe (e_recipe_id \<lparr>e_id = 1, e_recipe_id = ''R123'',
          e_slack_ts = Some ''1700000000.000100'', e_slack_channel = Some ''C024BE91L''\<rparr>)
        (recipes ?w) = Some \<lparr>r_id = 1, r_recipe_id = ''R123'', r_enabled = False\<rparr>"
    unfolding w by (simp add: first_recipe_def)
  from trust_update_queues_and_enables [OF h1 h2, of slack0 "''U1''" "''D1''"] h1 h2
  show ?thesis unfolding w by (simp add: enabled_of_def first_recipe_def save_recipe_def)
qed

text \<open>
  C5. Claimed: when an error message exists for the \<open>recipe_id\<close>, the update-failed
  callback sends the failure notification, stores the new handles on that error message
  and sets \<open>enabled\<close> back to false. The handler reads the error message with
  \<open>get(recipe_id=...)\<close>, which raises when more than one row matches, and every
  reported error adds a row: after two reports for one recipe and a trust update
  requested for the second, the callback raises at once, sends nothing, stores nothing
  and leaves the recipe enabled. (\<open>recipe_trust_update_success\<close> reads the row by
  \<open>error_id\<close>, and its comment names the several error messages of one recipe.)
\<close>

theorem update_failed_two_errors_raises:
  "recipe_trust_update_failed slack0 two_errors ''R123'' ''update-trust-info failed'' =
     (Inl MultipleObjectsReturned, two_errors)
   \<and> two_errors =
       \<lparr>recipes = [\<lparr>r_id = 1, r_recipe_id = ''R123'', r_enabled = True\<rparr>],
        error_messages =
          [\<lparr>e_id = 1, e_recipe_id = ''R123'',
            e_slack_ts = Some ''1700000000.000100'', e_slack_channel = Some ''C024BE91L''\<rparr>,
           \<lparr>e_id = 2, e_recipe_id = ''R123'',
            e_slack_ts = Some ''1700000000.000100'', e_slack_channel = Some ''C024BE91L''\<rparr>],
        background_tasks =
          [[Arg_str ''--recipe-identifier'', Arg_str ''R123'', Arg_str ''--action'',
            Arg_str ''trust'', Arg_str ''--error_id'', Arg_int 2]],
        sent =
          [Recipe_error_msg ''R123'' 1 (Dict ''Download'' (Str ''Timeout'')),
           Recipe_error_msg ''R123'' 2 (Dict ''Trust'' (Str ''Changed''))]\<rparr>
   \<and> enabled_of two_errors ''R123'' = Some True"
proof -
  have w: "two_errors =
       \<lparr>recipes = [\<lparr>r_id = 1, r_recipe_id = ''R123'', r_enabled = True\<rparr>],
        error_messages =
          [\<lparr>e_id = 1, e_recipe_id = ''R123'',
            e_slack_ts = Some ''1700000000.000100'', e_slack_channel = Some ''C024BE91L''\<rparr>,
           \<lparr>e_id = 2, e_recipe_id = ''R123'',
            e_slack_ts = Some ''1700000000.000100'', e_slack_channel = Some ''C024BE91L''\<rparr>],
        background_tasks =
          [[Arg_str ''--recipe-identifier'', Arg_str ''R123'', Arg_str ''--action'',
            Arg_str ''trust'', Arg_str ''--error_id'', Arg_int 2]],
        sent =
          [Recipe_error_msg ''R123'' 1 (Dict ''Download'' (Str ''Timeout'')),
           Recipe_error_msg ''R123'' 2 (Dict ''Trust'' (Str ''Changed''))]\<rparr>"
    by (simp add: two_errors_def recipe_error_eq reported_def parse_error_nest separator_def
          recipe_trust_update_def store_defs example_defs)
  have "recipe_trust_update_failed slack0 two_errors ''R123'' ''update-trust-info failed'' =
     (Inl MultipleObjectsReturned, two_errors)"
    unfolding w by (simp add: recipe_trust_update_failed_def orm_get_def)
  moreover have "enabled_of two_errors ''R123'' = Some True"
    unfolding w by (simp add: enabled_of_def first_recipe_def)
  ultimately show ?thesis using w by simp
qed

text \<open>
  C7. Claimed: the verify-failed callback, whether a recipe matches or not, creates the
  error message, sends the notification and sets \<open>enabled\<close> to false. Without a
  matching recipe the handler creates the error message and sends the notification, and
  then raises on \<open>recipe_object.enabled = False\<close>, \<open>recipe_object\<close> being \<open>None\<close>:
  the missing test of C3 again. Evaluated on the store without recipes.
\<close>

theorem verify_failed_missing_recipe_raises:
  "reciepe_trust_verify_failed slack0 no_recipe ''R123'' ''parent recipe changed'' =
     (Inl AttributeError,
      \<lparr>recipes = [],
       error_messages =
         [\<lparr>e_id = 1, e_recipe_id = ''R123'', e_slack_ts = None, e_slack_channel = None\<rparr>],
       background_tasks = [],
       sent = [Trust_diff_msg ''parent recipe changed''
                 \<lparr>e_id = 1, e_recipe_id = ''R123'',
                  e_slack_ts = None, e_slack_channel = None\<rparr>]\<rparr>)"
  by (simp add: verify_failed_eq store_defs example_defs)

text \<open>
  C8. When the error message with the given id is there and no recipe has its
  \<open>recipe_id\<close>, requesting a trust update posts one ephemeral message, addressed to
  the requesting user in the given channel, with the missing-recipe blocks, and changes
  nothing else: recipes, error messages and background tasks are as before.
\<close>

theorem trust_update_missing_recipe_notice:
  assumes "orm_get (\<lambda>e. e_id e = i) (error_messages w) = Inr error_object"
    and "first_recipe (e_recipe_id error_object) (recipes w) = None"
  shows "recipe_trust_update slack w i user_id chan =
           (Inr Returned_none,
            w\<lparr>sent := sent w @
                 [Ephemeral_message user_id
                    (Missing_recipe_msg (e_recipe_id error_object) ''update trust for'') chan
                    (''Encountered error attempting to update trust for `'' @
                       e_recipe_id error_object @ ''`'')]\<rparr>)
         \<and> recipes (snd (recipe_trust_update slack w i user_id chan)) = recipes w
         \<and> error_messages (snd (recipe_trust_update slack w i user_id chan)) = error_messages w
         \<and> background_tasks (snd (recipe_trust_update slack w i user_id chan)) =
             background_tasks w"
  using assms by (simp add: recipe_trust_update_def missing_text_def Let_def)

theorem trust_update_missing_recipe_notice_witness:
  "orm_get (\<lambda>e. e_id e = 1)
     (error_messages (snd (recipe_error slack0 no_recipe ''R123'' ''boom''))) =
     Inr \<lparr>e_id = 1, e_recipe_id = ''R123'',
          e_slack_ts = Some ''1700000000.000100'', e_slack_channel = Some ''C024BE91L''\<rparr>
   \<and> first_recipe ''R123'' (recipes (snd (recipe_error slack0 no_recipe ''R123'' ''boom''))) = None
   \<and> recipe_trust_update slack0
     (snd (recipe_error slack0 no_recipe ''R123'' ''boom'')) 1 ''U1'' ''D1'' =
     (Inr Returned_none,
      \<lparr>recipes = [],
       error_messages =
         [\<lparr>e_id = 1, e_recipe_id = ''R123'',
           e_slack_ts = Some ''1700000000.000100'', e_slack_channel = Some ''C024BE91L''\<rparr>],
       background_tasks = [],
       sent = [Recipe_error_msg ''R123'' 1 (Str ''boom''),
               Ephemeral_message ''U1'' (Missing_recipe_msg ''R123'' ''update trust for'') ''D1''
                 ''Encountered error attempting to update trust for `R123`'']\<rparr>)"
proof -
  let ?w = "snd (recipe_error slack0 no_recipe ''R123'' ''boom'')"
  have w: "?w = \<lparr>recipes = [],
       error_messages =
         [\<lparr>e_id = 1, e_recipe_id = ''R123'',
           e_slack_ts = Some ''1700000000.000100'', e_slack_channel = Some ''C024BE91L''\<rparr>],
       background_tasks = [],
       sent = [Recipe_error_msg ''R123'' 1 (Str ''boom'')]\<rparr>"
    by (simp add: recipe_error_eq reported_def parse_error_nest separator_def
          store_defs example_defs)
  have h1: "orm_get (\<lambda>e. e_id e = 1) (error_messages ?w) =
     Inr \<lparr>e_id = 1, e_recipe_id = ''R123'',
          e_slack_ts = Some ''1700000000.000100'', e_slack_channel = Some ''C024BE91L''\<rparr>"
    unfolding w by (simp add: orm_get_def)
  have h2: "first_recipe (e_recipe_id \<lparr>e_id = 1, e_recipe_id = ''R123'',
          e_slack_ts = Some ''1700000000.000100'', e_slack_channel = Some ''C024BE91L''\<rparr>)
        (recipes ?w) = None"
    unfolding w by (simp add: first_recipe_def)
  from trust_update_missing_recipe_notice [OF h1 h2, of slack0 "''U1''" "''D1''"] h1 h2
  show ?thesis unfolding w by simp
qed

section \<open>The claim about \<open>enabled\<close> over the runs of the workflow\<close>

text \<open>
  C2, as claimed: in every reachable state \<open>enabled\<close> is false while the recipe has an
  unresolved error or a pending or failed trust action, and it is true again only after
  a successful trust update or an explicit re-enable. The run below reports an error for
  the recipe \<open>R123\<close> and then requests the trust update. After the report the recipe is
  disabled. After the request it is enabled, while the trust task for error 1 is queued
  and no outcome has been reported: the run has no update-succeeded event, and the only
  error message of the recipe is the one the task is for.
\<close>

theorem enabled_while_trust_action_pending:
  "enabled_of (run slack0 one_recipe [Report_error ''R123'' ''boom'']) ''R123'' = Some False
   \<and> enabled_of
       (run slack0 one_recipe
          [Report_error ''R123'' ''boom'', Request_trust_update 1 ''U1'' ''D1'']) ''R123'' =
       Some True
   \<and> background_tasks
       (run slack0 one_recipe
          [Report_error ''R123'' ''boom'', Request_trust_update 1 ''U1'' ''D1'']) =
       [[Arg_str ''--recipe-identifier'', Arg_str ''R123'', Arg_str ''--action'', Arg_str ''trust'',
         Arg_str ''--error_id'', Arg_int 1]]
   \<and> map e_recipe_id
       (error_messages
          (run slack0 one_recipe
             [Report_error ''R123'' ''boom'', Request_trust_update 1 ''U1'' ''D1''])) =
       [''R123'']"
  by (simp add: recipe_error_eq reported_def parse_error_nest separator_def
        recipe_trust_update_def enabled_of_def store_defs example_defs)

text \<open>
  C2, amended. On a store whose ids are primary keys, after any sequence of
  report-error, request-trust-update, deny, update-succeeded, update-failed and
  verify-failed events, a recipe's \<open>enabled\<close> is what the last transition that wrote it
  wrote, or its first value when none did: false after a report-error, update-failed or
  verify-failed that found the recipe (and, for update-failed, exactly one error message
  of the recipe), true after a request-trust-update that found the error message and the
  recipe. The request writes true at once, while the task is only queued; deny and
  update-succeeded write nothing. So a recipe that a run has set to true has had a trust
  update requested in that run.
\<close>

theorem enabled_is_last_write:
  assumes "primary_keys w"
  shows "enabled_of (run slack w evs) recipe_id =
           (case last_write slack w evs recipe_id of
              None \<Rightarrow> enabled_of w recipe_id
            | Some b \<Rightarrow> Some b)
         \<and> (last_write slack w evs recipe_id = Some True \<longrightarrow>
              (\<exists>i user_id chan. Request_trust_update i user_id chan \<in> set evs))"
  using enabled_follows_last_write [OF assms] last_write_True_requested by blast

theorem enabled_is_last_write_witness:
  "primary_keys one_recipe
   \<and> last_write slack0 one_recipe
         [Report_error ''R123'' ''boom'', Request_trust_update 1 ''U1'' ''D1'',
          Deny_trust 1, Update_failed ''R123'' ''update-trust-info failed''] ''R123'' = Some False
   \<and> enabled_of
         (run slack0 one_recipe
            [Report_error ''R123'' ''boom'', Request_trust_update 1 ''U1'' ''D1'',
             Deny_trust 1, Update_failed ''R123'' ''update-trust-info failed'']) ''R123'' = Some False
   \<and> last_write slack0 one_recipe
         [Report_error ''R123'' ''boom'', Request_trust_update 1 ''U1'' ''D1'',
          Update_succeeded ''R123'' ''done'' 1] ''R123'' = Some True
   \<and> enabled_of
         (run slack0 one_recipe
            [Report_error ''R123'' ''boom'', Request_trust_update 1 ''U1'' ''D1'',
             Update_succeeded ''R123'' ''done'' 1]) ''R123'' = Some True"
proof -
  have pk: "primary_keys one_recipe"
    by (simp add: primary_keys_def one_recipe_def)
  have l1: "last_write slack0 one_recipe
         [Report_error ''R123'' ''boom'', Request_trust_update 1 ''U1'' ''D1'',
          Deny_trust 1, Update_failed ''R123'' ''update-trust-info failed''] ''R123'' = Some False"
    by (simp add: recipe_error_eq reported_def parse_error_nest separator_def
          recipe_trust_update_def recipe_trust_deny_def recipe_trust_update_failed_def
          enabled_write_def store_defs example_defs)
  have l2: "last_write slack0 one_recipe
         [Report_error ''R123'' ''boom'', Request_trust_update 1 ''U1'' ''D1'',
          Update_succeeded ''R123'' ''done'' 1] ''R123'' = Some True"
    by (simp add: recipe_error_eq reported_def parse_error_nest separator_def
          recipe_trust_update_def recipe_trust_update_success_def
          enabled_write_def store_defs example_defs)
  from enabled_is_last_write [OF pk, of slack0
      "[Report_error ''R123'' ''boom'', Request_trust_update 1 ''U1'' ''D1'',
        Deny_trust 1, Update_failed ''R123'' ''update-trust-info failed'']" "''R123''"]
    enabled_is_last_write [OF pk, of slack0
      "[Report_error ''R123'' ''boom'', Request_trust_update 1 ''U1'' ''D1'',
        Update_succeeded ''R123'' ''done'' 1]" "''R123''"]
    pk l1 l2
  show ?thesis by simp
qed

section \<open>The claims about \<open>utils.py\<close>\<close>

lemma strip_decomposes:
  "\<exists>before after. s = before @ strip s @ after
     \<and> list_all py_isspace before \<and> list_all py_isspace after"
proof -
  let ?mid = "dropWhile py_isspace s"
  have 1: "s = takeWhile py_isspace s @ ?mid" by simp
  have 2: "rev ?mid = takeWhile py_isspace (rev ?mid) @ dropWhile py_isspace (rev ?mid)" by simp
  then have "?mid = rev (dropWhile py_isspace (rev ?mid)) @ rev (takeWhile py_isspace (rev ?mid))"
    by (metis rev_append rev_rev_ident)
  then have 3: "?mid = strip s @ rev (takeWhile py_isspace (rev ?mid))"
    by (simp add: strip_def)
  have a: "list_all py_isspace (takeWhile py_isspace s)"
    by (simp add: list_all_iff) (meson set_takeWhileD)
  have b: "list_all py_isspace (rev (takeWhile py_isspace (rev ?mid)))"
    by (simp add: list_all_iff) (meson set_takeWhileD)
  from 1 3 have "s = takeWhile py_isspace s @ strip s @ rev (takeWhile py_isspace (rev ?mid))"
    by metis
  with a b show ?thesis by blast
qed

lemma strip_ends:
  "strip s = [] \<or> (\<not> py_isspace (hd (strip s)) \<and> \<not> py_isspace (last (strip s)))"
proof (cases "strip s = []")
  case True
  then show ?thesis by simp
next
  case False
  let ?mid = "dropWhile py_isspace s"
  let ?trail = "dropWhile py_isspace (rev ?mid)"
  from False have ne: "?trail \<noteq> []" by (simp add: strip_def)
  then have "\<not> py_isspace (hd ?trail)" by (rule hd_dropWhile)
  with ne have l: "\<not> py_isspace (last (strip s))" by (simp add: strip_def last_rev)
  from ne have "rev ?mid \<noteq> []" by (metis dropWhile.simps(1))
  then have mid: "?mid \<noteq> []" by simp
  then have h: "\<not> py_isspace (hd ?mid)" by (rule hd_dropWhile)
  have "?trail \<noteq> [] \<Longrightarrow> last ?trail = last (rev ?mid)"
    by (metis last_appendR takeWhile_dropWhile_id)
  with ne have "last ?trail = hd ?mid" using mid by (simp add: last_rev)
  with ne have "hd (strip s) = hd ?mid" by (simp add: strip_def hd_rev)
  with h l False show ?thesis by simp
qed

text \<open>
  C9. A command that is not a string raises \<open>TypeError\<close>. For a command that is a
  string, when the output streams of the process decode, the call returns a result, and
  every result it returns holds the decoded streams with the whitespace at both ends
  removed, the exit code of the process as \<open>status\<close>, and \<open>success\<close> exactly when
  the exit code is 0. Removing the whitespace at both ends of a text leaves a middle part
  of the text, with whitespace only before and after it, that neither begins nor ends
  with whitespace.
\<close>

theorem run_process_async_result:
  "(\<not> is_str command \<longrightarrow> run_process_async shell decode command input = Inl TypeError)
   \<and> (command = Py_str cmd \<longrightarrow> piped input = Inr written \<longrightarrow>
        decode (out_bytes (shell cmd written)) = Inr out \<longrightarrow>
        map_option decode (err_bytes (shell cmd written)) = map_option Inr err \<longrightarrow>
        run_process_async shell decode command input =
          Inr \<lparr>stdout = strip out,
               stderr = map_option strip err,
               status = returncode (shell cmd written),
               success = (returncode (shell cmd written) = 0)\<rparr>)
   \<and> (command = Py_str cmd \<longrightarrow> run_process_async shell decode command input = Inr r \<longrightarrow>
        (\<exists>written out err.
           piped input = Inr written
           \<and> decode (out_bytes (shell cmd written)) = Inr out
           \<and> map_option decode (err_bytes (shell cmd written)) = map_option Inr err
           \<and> stdout r = strip out
           \<and> stderr r = map_option strip err
           \<and> status r = returncode (shell cmd written)
           \<and> success r = (returncode (shell cmd written) = 0)))
   \<and> (\<forall>s. (\<exists>before after. s = before @ strip s @ after
              \<and> list_all py_isspace before \<and> list_all py_isspace after)
          \<and> (strip s = [] \<or> (\<not> py_isspace (hd (strip s)) \<and> \<not> py_isspace (last (strip s)))))"
proof -
  have "\<not> is_str command \<longrightarrow> run_process_async shell decode command input = Inl TypeError"
    by (cases command) (simp_all add: run_process_async_def)
  moreover have "command = Py_str cmd \<longrightarrow> piped input = Inr written \<longrightarrow>
        decode (out_bytes (shell cmd written)) = Inr out \<longrightarrow>
        map_option decode (err_bytes (shell cmd written)) = map_option Inr err \<longrightarrow>
        run_process_async shell decode command input =
          Inr \<lparr>stdout = strip out,
               stderr = map_option strip err,
               status = returncode (shell cmd written),
               success = (returncode (shell cmd written) = 0)\<rparr>"
    by (cases "err_bytes (shell cmd written)"; cases err)
       (auto simp: run_process_async_def Let_def)
  moreover have "command = Py_str cmd \<longrightarrow> run_process_async shell decode command input = Inr r \<longrightarrow>
        (\<exists>written out err.
           piped input = Inr written
           \<and> decode (out_bytes (shell cmd written)) = Inr out
           \<and> map_option decode (err_bytes (shell cmd written)) = map_option Inr err
           \<and> stdout r = strip out
           \<and> stderr r = map_option strip err
           \<and> status r = returncode (shell cmd written)
           \<and> success r = (returncode (shell cmd written) = 0))"
  proof (intro impI)
    assume c: "command = Py_str cmd"
      and res: "run_process_async shell decode command input = Inr r"
    from c res obtain written where w: "piped input = Inr written"
      by (cases "piped input") (auto simp: run_process_async_def)
    from c res w obtain out where o: "decode (out_bytes (shell cmd written)) = Inr out"
      by (cases "decode (out_bytes (shell cmd written))")
         (auto simp: run_process_async_def Let_def)
    show "\<exists>written out err.
           piped input = Inr written
           \<and> decode (out_bytes (shell cmd written)) = Inr out
           \<and> map_option decode (err_bytes (shell cmd written)) = map_option Inr err
           \<and> stdout r = strip out
           \<and> stderr r = map_option strip err
           \<and> status r = returncode (shell cmd written)
           \<and> success r = (returncode (shell cmd written) = 0)"
    proof (cases "err_bytes (shell cmd written)")
      case None
      with c res w o have "stdout r = strip out \<and> stderr r = map_option strip None
          \<and> status r = returncode (shell cmd written)
          \<and> success r = (returncode (shell cmd written) = 0)"
        by (auto simp: run_process_async_def Let_def split: if_splits)
      moreover from None have "map_option decode (err_bytes (shell cmd written)) =
          map_option Inr None" by simp
      ultimately show ?thesis using w o by blast
    next
      case (Some b)
      with c res w o obtain err where e: "decode b = Inr err"
        by (cases "decode b") (auto simp: run_process_async_def Let_def)
      with Some c res w o have "stdout r = strip out \<and> stderr r = map_option strip (Some err)
          \<and> status r = returncode (shell cmd written)
          \<and> success r = (returncode (shell cmd written) = 0)"
        by (auto simp: run_process_async_def Let_def split: if_splits)
      moreover from Some e have "map_option decode (err_bytes (shell cmd written)) =
          map_option Inr (Some err)" by simp
      ultimately show ?thesis using w o by blast
    qed
  qed
  moreover have "\<forall>s. (\<exists>before after. s = before @ strip s @ after
              \<and> list_all py_isspace before \<and> list_all py_isspace after)
          \<and> (strip s = [] \<or> (\<not> py_isspace (hd (strip s)) \<and> \<not> py_isspace (last (strip s))))"
    using strip_decomposes strip_ends by blast
  ultimately show ?thesis by blast
qed

theorem run_process_async_result_witness:
  "\<not> is_str (Py_list [Py_str ''ls'', Py_str ''-l''])
   \<and> run_process_async shell0 decode0 (Py_list [Py_str ''ls'', Py_str ''-l'']) Py_none = Inl TypeError
   \<and> piped Py_none = Inr None
   \<and> decode0 (out_bytes (shell0 ''true'' None)) = Inr (''  hello '' @ [newline])
   \<and> map_option decode0 (err_bytes (shell0 ''true'' None)) = map_option Inr (Some [])
   \<and> run_process_async shell0 decode0 (Py_str ''true'') Py_none =
       Inr \<lparr>stdout = ''hello'', stderr = Some [], status = 0, success = True\<rparr>
   \<and> run_process_async shell0 decode0 (Py_str ''false'') (Py_str ''y'') =
       Inr \<lparr>stdout = [], stderr = Some ''no such file'', status = 1, success = False\<rparr>"
proof -
  have n: "\<not> is_str (Py_list [Py_str ''ls'', Py_str ''-l''])" by simp
  have p1: "piped Py_none = Inr None" by (simp add: piped_def)
  have p2: "piped (Py_str ''y'') = Inr (Some ''y'')" by (simp add: piped_def)
  have o1: "decode0 (out_bytes (shell0 ''true'' None)) = Inr (''  hello '' @ [newline])"
    by (simp add: shell0_def decode0_def code_point_def newline_def)
  have e1: "map_option decode0 (err_bytes (shell0 ''true'' None)) = map_option Inr (Some [])"
    by (simp add: shell0_def decode0_def)
  have o2: "decode0 (out_bytes (shell0 ''false'' (Some ''y''))) = Inr []"
    by (simp add: shell0_def decode0_def)
  have e2: "map_option decode0 (err_bytes (shell0 ''false'' (Some ''y''))) =
      map_option Inr (Some (''no such file'' @ [newline]))"
    by (simp add: shell0_def decode0_def code_point_def newline_def)
  have s1: "strip (''  hello '' @ [newline]) = ''hello''"
    by (simp add: strip_def py_isspace_def code_point_def newline_def)
  have s2: "strip (''no such file'' @ [newline]) = ''no such file''"
    by (simp add: strip_def py_isspace_def code_point_def newline_def)
  have s3: "strip [] = []" by (simp add: strip_def)
  have r1: "returncode (shell0 ''true'' None) = 0" by (simp add: shell0_def)
  have r2: "returncode (shell0 ''false'' (Some ''y'')) = 1" by (simp add: shell0_def)
  from run_process_async_result
         [of "Py_list [Py_str ''ls'', Py_str ''-l'']" shell0 decode0 Py_none] n
  have a: "run_process_async shell0 decode0 (Py_list [Py_str ''ls'', Py_str ''-l'']) Py_none =
      Inl TypeError" by blast
  from run_process_async_result
         [of "Py_str ''true''" shell0 decode0 Py_none "''true''" None
             "''  hello '' @ [newline]" "Some []"] p1 o1 e1
  have b: "run_process_async shell0 decode0 (Py_str ''true'') Py_none =
      Inr \<lparr>stdout = strip (''  hello '' @ [newline]), stderr = map_option strip (Some []),
           status = returncode (shell0 ''true'' None),
           success = (returncode (shell0 ''true'' None) = 0)\<rparr>" by blast
  from run_process_async_result
         [of "Py_str ''false''" shell0 decode0 "Py_str ''y''" "''false''" "Some ''y''"
             "[]" "Some (''no such file'' @ [newline])"] p2 o2 e2
  have c: "run_process_async shell0 decode0 (Py_str ''false'') (Py_str ''y'') =
      Inr \<lparr>stdout = strip [], stderr = map_option strip (Some (''no such file'' @ [newline])),
           status = returncode (shell0 ''false'' (Some ''y'')),
           success = (returncode (shell0 ''false'' (Some ''y'')) = 0)\<rparr>" by blast
  from a b c s1 s2 s3 r1 r2 n p1 o1 e1 show ?thesis by simp
qed

text \<open>
  C10. Claimed: every occurrence of each configured secret, of the bearer pattern and of
  each extra pattern of the caller's list is replaced, and the other text is unchanged.
  The configured values are formatted into the pattern as they are, so a secret is read
  as a regular expression: the password \<open>Pa+ss\<close> matches \<open>Pass\<close> and not itself,
  stays in the text, and an unrelated \<open>Pass\<close> is replaced. A list of extra patterns is
  formatted as its \<open>repr\<close>: \<open>['tok']\<close> is a character set, and every \<open>t\<close>, \<open>o\<close>
  and \<open>k\<close> (and quote) of the text is replaced on its own, in \<open>token\<close> as in the
  unrelated \<open>ok\<close>.
\<close>

theorem replace_sensitive_strings_misses_secret:
  "replace_sensitive_strings config0 ''login Pa+ss failed, Pass ok'' Py_none =
     Done ''login Pa+ss failed, <redacted> ok''
   \<and> replace_sensitive_strings config0 ''token ok'' (Py_list [Py_str ''tok'']) =
       Done ''<redacted><redacted><redacted>en <redacted><redacted>''"
  by code_simp

text \<open>The example of the spec: a configured secret without special characters and a
  bearer token are replaced, and the text around them is kept.\<close>

lemma replace_sensitive_strings_example:
  "replace_sensitive_strings config0 ''user svc_api sent bearer abc.def-123 twice'' Py_none =
     Done ''user <redacted> sent <redacted> twice''"
  by code_simp

end
